theory Spec2Isabelle
  imports Complex_Main "HOL-Library.Sublist" "HOL-Library.Multiset"
begin

section \<open>The VTEX transform layer (commerce/vtex/transform.ts)\<close>

text \<open>
  The embedding follows \<^verbatim>\<open>src/commerce/vtex/transform.ts\<close>. JavaScript values that the
  code only copies are strings; a JavaScript \<^verbatim>\<open>number\<close> that reaches the functions from a
  parsed JSON payload is a finite double, hence a rational, and the only arithmetic done
  on numbers is the comparison \<^verbatim>\<open>> 0\<close> and the sign of a difference, both of which
  agree with the rationals on finite doubles. A property that may be \<^verbatim>\<open>undefined\<close> or
  \<^verbatim>\<open>null\<close> is an \<open>option\<close>. A thrown exception is the left injection of a sum.
\<close>

type_synonym number = rat

datatype error =
    MissingSku "string option" string  \<comment> \<open>\<^verbatim>\<open>new Error(`Missing sku ${skuId} on product ${productName}`)\<close>\<close>
  | TypeError                            \<comment> \<open>any \<^verbatim>\<open>TypeError\<close> of the runtime\<close>

subsection \<open>Built-ins of the language\<close>

text \<open>\<^verbatim>\<open>s.split(c)\<close> for a one-character separator: never empty, \<^verbatim>\<open>"".split(c)\<close> is \<^verbatim>\<open>[""]\<close>.\<close>

fun js_split :: "char \<Rightarrow> string \<Rightarrow> string list" where
  "js_split c [] = [[]]"
| "js_split c (x # xs) =
     (if x = c then [] # js_split c xs
      else (case js_split c xs of [] \<Rightarrow> [[x]] | w # ws \<Rightarrow> (x # w) # ws))"

text \<open>\<^verbatim>\<open>xs.join(sep)\<close>.\<close>

fun js_join :: "string \<Rightarrow> string list \<Rightarrow> string" where
  "js_join sep [] = []"
| "js_join sep [x] = x"
| "js_join sep (x # y # ys) = x @ sep @ js_join sep (y # ys)"

text \<open>
  \<^verbatim>\<open>s.replace(pat, rep)\<close> with a string pattern: the first occurrence of \<open>pat\<close> is
  replaced (the replacement strings of the code hold no \<^verbatim>\<open>$\<close>).
\<close>

fun js_replace :: "string \<Rightarrow> string \<Rightarrow> string \<Rightarrow> string" where
  "js_replace pat rep [] = (if pat = [] then rep else [])"
| "js_replace pat rep (c # cs) =
     (if prefix pat (c # cs) then rep @ drop (length pat) (c # cs)
      else c # js_replace pat rep cs)"

text \<open>\<^verbatim>\<open>xs.findIndex(P)\<close>: the first index whose element satisfies \<open>P\<close>, or \<open>-1\<close>.\<close>

fun findIndex :: "('a \<Rightarrow> bool) \<Rightarrow> 'a list \<Rightarrow> int" where
  "findIndex P [] = - 1"
| "findIndex P (x # xs) =
     (if P x then 0 else (let i = findIndex P xs in if i < 0 then - 1 else i + 1))"

text \<open>
  \<^verbatim>\<open>xs.splice(start, deleteCount)\<close>, the array left behind: a negative \<open>start\<close> counts
  from the end, and both bounds are clamped to the array.
\<close>

definition splice :: "'a list \<Rightarrow> int \<Rightarrow> int \<Rightarrow> 'a list" where
  "splice xs start deleteCount =
     (let len = int (length xs);
          s = (if start < 0 then max (len + start) 0 else min start len);
          d = min (max deleteCount 0) (len - s)
      in take (nat s) xs @ drop (nat (s + d)) xs)"

text \<open>
  \<^verbatim>\<open>new Set(xs)\<close>: the distinct elements. Only \<^verbatim>\<open>has\<close> and \<^verbatim>\<open>size\<close> are used, so the
  order of the elements is not observed.
\<close>

definition js_Set :: "'a list \<Rightarrow> 'a list" where
  "js_Set xs = remdups xs"

definition has :: "'a list \<Rightarrow> 'a \<Rightarrow> bool" where
  "has s x = (x \<in> set s)"

text \<open>
  \<^verbatim>\<open>xs.sort(cmp)\<close>. ECMAScript requires the sort to be stable and, for a consistent
  comparator, to return the elements in the comparator's order: \<open>a\<close> stays before a later
  \<open>b\<close> unless \<open>cmp a b > 0\<close>. That result is the one of a stable insertion sort.
\<close>

fun insertBy :: "('a \<Rightarrow> 'a \<Rightarrow> number) \<Rightarrow> 'a \<Rightarrow> 'a list \<Rightarrow> 'a list" where
  "insertBy cmp x [] = [x]"
| "insertBy cmp x (y # ys) = (if cmp x y \<le> 0 then x # y # ys else y # insertBy cmp x ys)"

fun js_sort :: "('a \<Rightarrow> 'a \<Rightarrow> number) \<Rightarrow> 'a list \<Rightarrow> 'a list" where
  "js_sort cmp [] = []"
| "js_sort cmp (x # xs) = insertBy cmp x (js_sort cmp xs)"

text \<open>\<^verbatim>\<open>xs[i]\<close>: \<^verbatim>\<open>undefined\<close> out of range.\<close>

definition at_index :: "'a list \<Rightarrow> int \<Rightarrow> 'a option" where
  "at_index xs i = (if 0 \<le> i \<and> i < int (length xs) then Some (xs ! nat i) else None)"

text \<open>Running a list of computations in order; the first exception ends the run.\<close>

fun sequence :: "(error + 'a) list \<Rightarrow> error + 'a list" where
  "sequence [] = Inr []"
| "sequence (r # rs) =
     (case r of Inl e \<Rightarrow> Inl e
      | Inr x \<Rightarrow> (case sequence rs of Inl e \<Rightarrow> Inl e | Inr xs \<Rightarrow> Inr (x # xs)))"

subsection \<open>The platform: URL objects and the slug helper\<close>

text \<open>
  A \<^verbatim>\<open>URL\<close> object is the record of the properties the code reads. The URL parser and
  serialiser belong to the runtime, and \<^verbatim>\<open>utils/slugify.ts\<close> is not among the sources, so
  the functions take them as a parameter:
  \<^item> \<open>newURL rel base\<close> is \<^verbatim>\<open>new URL(rel, base)\<close>, \<open>None\<close> when the constructor throws;
  \<^item> \<open>searchParams_set u k v\<close> is \<open>u\<close> after \<^verbatim>\<open>u.searchParams.set(k, v)\<close>;
  \<^item> \<open>set_search u s\<close> is \<open>u\<close> after \<^verbatim>\<open>u.search = s\<close>;
  \<^item> \<open>slugify\<close> is the slug helper.
\<close>

record URL =
  href :: string
  origin :: string
  pathname :: string
  search :: string

record platform =
  newURL :: "string \<Rightarrow> string \<Rightarrow> URL option"
  searchParams_set :: "URL \<Rightarrow> string \<Rightarrow> string \<Rightarrow> URL"
  set_search :: "URL \<Rightarrow> string \<Rightarrow> URL"
  slugify :: "string \<Rightarrow> string"

subsection \<open>Vendor shapes (commerce/vtex/types.ts)\<close>

text \<open>
  The type declarations are not among the sources; the records hold the properties that
  \<^verbatim>\<open>transform.ts\<close> reads by name. A legacy product or sku is also read by computed
  property name (\<^verbatim>\<open>product[name]\<close>, \<^verbatim>\<open>sku[variation]\<close>), which reaches every property of
  the object: \<open>specificationFields\<close> and \<open>variationFields\<close> hold the properties of the
  object that the record does not name (among them the specifications), each with its
  JSON value.
\<close>

datatype json =
    JNull
  | JBool bool
  | JNumber number
  | JString string
  | JArray "json list"
  | JObject "(string \<times> json) list"

record Installment =
  PaymentSystemName :: string
  inst_Name :: string
  NumberOfInstallments :: number
  inst_Value :: number
  TotalValuePlusInterestRate :: number

record CommertialOffer =
  spotPrice :: "number option"
  Price :: number
  ListPrice :: number
  PriceValidUntil :: string
  AvailableQuantity :: number
  Installments :: "Installment list"

record SellerVTEX =
  sellerId :: string
  commertialOffer :: CommertialOffer

record ImageVTEX =
  imageUrl :: string
  imageText :: "string option"

record NamedValues =
  nv_name :: string
  nv_values :: "string list"

datatype Variations =
    LegacyVariations "string list"      \<comment> \<open>\<^verbatim>\<open>LegacyItem.variations: string[]\<close>\<close>
  | ModernVariations "NamedValues list" \<comment> \<open>\<^verbatim>\<open>Item.variations: { name, values }[]\<close>\<close>

record SkuVTEX =
  itemId :: string
  sku_name :: string
  ean :: string
  variations :: "Variations option"
  images :: "ImageVTEX list option"
  sellers :: "SellerVTEX list"
  variationFields :: "(string \<times> json) list"

record ProductVTEX =
  productId :: string
  productName :: string
  vtex_brand :: string
  linkText :: string
  productReference :: string
  vtex_description :: string
  vtex_releaseDate :: string
  categories :: "string list"
  categoriesIds :: "string list"
  vtex_origin :: "string option"
  allSpecifications :: "string list option"
  properties :: "NamedValues list option"
  specificationFields :: "(string \<times> json) list"
  items :: "SkuVTEX list"

record LegacyFacet =
  Quantity :: number
  Name :: string
  Link :: string
  LinkEncoded :: string
  Map :: string
  Value :: string

record ProductOptions =
  url :: URL
  priceCurrency :: string

subsection \<open>Canonical shapes (commerce/types.ts)\<close>

text \<open>
  The \<^verbatim>\<open>value\<close> of a property value is declared a string. The mappings copy into it
  whatever element the array they read holds: a JSON value, or one of the objects of the
  payload.
\<close>

datatype js_value =
    Json json
  | SkuRef SkuVTEX
  | SellerRef SellerVTEX
  | ImageRef ImageVTEX
  | NamedValuesRef NamedValues

abbreviation StringValue :: "string \<Rightarrow> js_value" where
  "StringValue s \<equiv> Json (JString s)"

record PropertyValue =
  pv_name :: string
  pv_value :: js_value
  valueReference :: "string option"

record ImageObject =
  alternateName :: string
  io_url :: string

record UnitPriceSpecification =
  priceType :: string
  priceComponentType :: "string option"
  ups_name :: "string option"
  ups_description :: "string option"
  billingDuration :: "number option"
  billingIncrement :: "number option"
  ups_price :: number

record Offer =
  price :: number
  seller :: string
  priceValidUntil :: string
  inventoryLevel :: number
  priceSpecification :: "UnitPriceSpecification list"
  availability :: string

record AggregateOffer =
  agg_priceCurrency :: string
  highPrice :: "number option"
  lowPrice :: "number option"
  offerCount :: nat
  agg_offers :: "Offer list"

datatype Product = Product
    (category: string)
    (productID: string)
    (p_url: string)
    (name: string)
    (description: string)
    (brand: string)
    (sku: string)
    (gtin: string)
    (releaseDate: string)
    (additionalProperty: "PropertyValue list")
    (isVariantOf: ProductGroup)
    (image_objects: "ImageObject list")
    (offers: "AggregateOffer option")
and ProductGroup = ProductGroup
    (productGroupID: string)
    (hasVariant: "Product list")
    (pg_url: string)
    (pg_name: string)
    (pg_additionalProperty: "PropertyValue list")
    (model: string)

record ListItem =
  li_name :: "string option"
  item :: string
  position :: nat

record BreadcrumbList =
  itemListElement :: "ListItem list"
  numberOfItems :: nat

record ProductDetailsPage =
  breadcrumbList :: BreadcrumbList
  product :: Product

record FilterToggleValue =
  fv_value :: string
  fv_quantity :: number
  fv_url :: string
  fv_label :: string
  selected :: bool

record FilterToggle =
  ft_quantity :: nat
  label :: string
  key :: string
  ft_values :: "FilterToggleValue list"

record SelectedFacet =
  facet_key :: string
  facet_value :: string

subsection \<open>Type guards and URLs\<close>

definition isLegacySku :: "SkuVTEX \<Rightarrow> bool" where
  "isLegacySku sk =
     (case variations sk of
        Some (LegacyVariations (v # vs)) \<Rightarrow> True
      | _ \<Rightarrow> False)"

definition isLegacyProduct :: "ProductVTEX \<Rightarrow> bool" where
  "isLegacyProduct p = (vtex_origin p \<noteq> Some ''intelligent-search'')"

definition new_URL :: "platform \<Rightarrow> string \<Rightarrow> string \<Rightarrow> error + URL" where
  "new_URL pf rel base = (case newURL pf rel base of None \<Rightarrow> Inl TypeError | Some u \<Rightarrow> Inr u)"

definition getCanonicalURL :: "platform \<Rightarrow> URL \<Rightarrow> ProductVTEX \<Rightarrow> error + URL" where
  "getCanonicalURL pf u p = new_URL pf (''/'' @ linkText p @ ''/p'') (origin u)"

text \<open>\<^verbatim>\<open>if (skuId)\<close>: the parameter is set when the id is a non-empty string.\<close>

definition getProductURL :: "platform \<Rightarrow> URL \<Rightarrow> ProductVTEX \<Rightarrow> string option \<Rightarrow> error + URL" where
  "getProductURL pf u p skuId =
     (case getCanonicalURL pf u p of
        Inl e \<Rightarrow> Inl e
      | Inr canonicalUrl \<Rightarrow>
          (case skuId of
             Some s \<Rightarrow>
               if s \<noteq> [] then Inr (searchParams_set pf canonicalUrl ''skuId'' s)
               else Inr canonicalUrl
           | None \<Rightarrow> Inr canonicalUrl))"

definition nonEmptyArray :: "'a list option \<Rightarrow> 'a list option" where
  "nonEmptyArray array =
     (case array of
        Some xs \<Rightarrow> if length xs > 0 then Some xs else None
      | None \<Rightarrow> None)"

definition DEFAULT_IMAGE :: ImageVTEX where
  "DEFAULT_IMAGE =
     \<lparr> imageUrl = ''https://storecomponents.vtexassets.com/assets/faststore/images/image___117a6d3e229a96ad0e0d0876352566e2.svg'',
       imageText = Some ''image'' \<rparr>"

subsection \<open>Offers\<close>

definition inStock :: "Offer \<Rightarrow> bool" where
  "inStock offer = (availability offer = ''https://schema.org/InStock'')"

definition bestOfferFirst :: "Offer \<Rightarrow> Offer \<Rightarrow> number" where
  "bestOfferFirst a b =
     (if inStock a \<and> \<not> inStock b then - 1
      else if \<not> inStock a \<and> inStock b then 1
      else price a - price b)"

text \<open>
  The \<^verbatim>\<open>for\<close> loop of \<^verbatim>\<open>getHighPriceIndex\<close>, from the index \<open>it\<close>. Reading
  \<^verbatim>\<open>offers[it]\<close> out of range gives \<^verbatim>\<open>undefined\<close>, on which \<^verbatim>\<open>inStock\<close> throws.
\<close>

function getHighPriceIndex_for :: "Offer list \<Rightarrow> int \<Rightarrow> error + int" where
  "getHighPriceIndex_for os it =
     (if it > 0 then
        (case at_index os it of
           None \<Rightarrow> Inl TypeError
         | Some offer \<Rightarrow>
             if \<not> inStock offer then getHighPriceIndex_for os (it - 1) else Inr it)
      else Inr it)"
  by pat_completeness auto
termination
  by (relation "measure (\<lambda>(os, it). nat it)") auto

declare getHighPriceIndex_for.simps [simp del]

definition getHighPriceIndex :: "Offer list \<Rightarrow> error + int" where
  "getHighPriceIndex os = getHighPriceIndex_for os (int (length os) - 1)"

text \<open>The callback of \<^verbatim>\<open>offer.Installments.map\<close> in \<^verbatim>\<open>toOffer\<close>.\<close>

definition installmentToSpec :: "Installment \<Rightarrow> UnitPriceSpecification" where
  "installmentToSpec installment =
     \<lparr> priceType = ''https://schema.org/SalePrice'',
       priceComponentType = Some ''https://schema.org/Installment'',
       ups_name = Some (PaymentSystemName installment),
       ups_description = Some (inst_Name installment),
       billingDuration = Some (NumberOfInstallments installment),
       billingIncrement = Some (inst_Value installment),
       ups_price = TotalValuePlusInterestRate installment \<rparr>"

definition toOffer :: "SellerVTEX \<Rightarrow> Offer" where
  "toOffer s =
     (let offer = commertialOffer s in
      \<lparr> price = (case spotPrice offer of Some sp \<Rightarrow> sp | None \<Rightarrow> Price offer),
        seller = sellerId s,
        priceValidUntil = PriceValidUntil offer,
        inventoryLevel = AvailableQuantity offer,
        priceSpecification =
          [ \<lparr> priceType = ''https://schema.org/ListPrice'',
              priceComponentType = None, ups_name = None, ups_description = None,
              billingDuration = None, billingIncrement = None,
              ups_price = ListPrice offer \<rparr>,
            \<lparr> priceType = ''https://schema.org/SalePrice'',
              priceComponentType = None, ups_name = None, ups_description = None,
              billingDuration = None, billingIncrement = None,
              ups_price = Price offer \<rparr> ]
          @ map installmentToSpec (Installments offer),
        availability =
          (if AvailableQuantity offer > 0 then ''https://schema.org/InStock''
           else ''https://schema.org/OutOfStock'') \<rparr>)"

subsection \<open>Additional properties\<close>

text \<open>\<^verbatim>\<open>firstCategory.split("/").filter(Boolean)\<close>; \<^verbatim>\<open>undefined.split\<close> throws.\<close>

definition splitCategory :: "string option \<Rightarrow> error + string list" where
  "splitCategory firstCategory =
     (case firstCategory of
        None \<Rightarrow> Inl TypeError
      | Some s \<Rightarrow> Inr (filter (\<lambda>seg. seg \<noteq> []) (js_split CHR ''/'' s)))"

definition toAdditionalPropertyCategories :: "ProductVTEX \<Rightarrow> error + PropertyValue list" where
  "toAdditionalPropertyCategories p =
     (case splitCategory (at_index (categories p) 0) of
        Inl e \<Rightarrow> Inl e
      | Inr cats \<Rightarrow>
          (case splitCategory (at_index (categoriesIds p) 0) of
             Inl e \<Rightarrow> Inl e
           | Inr categoryIds \<Rightarrow>
               Inr (map (\<lambda>c. \<lparr> pv_name = ''category'', pv_value = StringValue c,
                                valueReference = None \<rparr>) cats
                  @ map (\<lambda>c. \<lparr> pv_name = ''categoryId'', pv_value = StringValue c,
                                  valueReference = None \<rparr>)
                      categoryIds)))"

text \<open>
  Computed property access, as far as \<^verbatim>\<open>.map\<close> can tell: the elements when the property
  holds an array, \<open>None\<close> when it holds anything else or is absent (a string, an object,
  \<^verbatim>\<open>undefined\<close> and the properties inherited from \<^verbatim>\<open>Object.prototype\<close> have no \<^verbatim>\<open>map\<close>).
  The properties that the record names are found under their names in the payload.
\<close>

definition productProperty :: "ProductVTEX \<Rightarrow> string \<Rightarrow> js_value list option" where
  "productProperty p n =
     (if n = ''categories'' then Some (map StringValue (categories p))
      else if n = ''categoriesIds'' then Some (map StringValue (categoriesIds p))
      else if n = ''allSpecifications'' then map_option (map StringValue) (allSpecifications p)
      else if n = ''properties'' then map_option (map NamedValuesRef) (properties p)
      else if n = ''items'' then Some (map SkuRef (items p))
      else if n \<in> set [''productId'', ''productName'', ''brand'', ''linkText'',
                         ''productReference'', ''description'', ''releaseDate'', ''origin'']
      then None
      else (case map_of (specificationFields p) n of
              Some (JArray xs) \<Rightarrow> Some (map Json xs)
            | _ \<Rightarrow> None))"

definition skuProperty :: "SkuVTEX \<Rightarrow> string \<Rightarrow> js_value list option" where
  "skuProperty sk n =
     (if n = ''variations'' then
        (case variations sk of
           None \<Rightarrow> None
         | Some (LegacyVariations ns) \<Rightarrow> Some (map StringValue ns)
         | Some (ModernVariations nvs) \<Rightarrow> Some (map NamedValuesRef nvs))
      else if n = ''images'' then map_option (map ImageRef) (images sk)
      else if n = ''sellers'' then Some (map SellerRef (sellers sk))
      else if n \<in> set [''itemId'', ''name'', ''ean''] then None
      else (case map_of (variationFields sk) n of
              Some (JArray xs) \<Rightarrow> Some (map Json xs)
            | _ \<Rightarrow> None))"

text \<open>
  The inner \<^verbatim>\<open>values.map\<close> of the property mappings, on the result of a computed
  property access: without an array the call of \<^verbatim>\<open>.map\<close> throws. \<open>flatMapE\<close> is
  \<^verbatim>\<open>flatMap\<close> with a callback that may throw.
\<close>

definition specificationValues ::
  "string \<Rightarrow> string \<Rightarrow> js_value list option \<Rightarrow> error + PropertyValue list" where
  "specificationValues ref n vs =
     (case vs of
        None \<Rightarrow> Inl TypeError
      | Some vals \<Rightarrow>
          Inr (map (\<lambda>v. \<lparr> pv_name = n, pv_value = v, valueReference = Some ref \<rparr>) vals))"

definition flatMapE :: "('a \<Rightarrow> error + 'b list) \<Rightarrow> 'a list \<Rightarrow> error + 'b list" where
  "flatMapE f xs =
     (case sequence (map f xs) of Inl e \<Rightarrow> Inl e | Inr yss \<Rightarrow> Inr (concat yss))"

definition legacyToProductGroupAdditionalProperties ::
  "ProductVTEX \<Rightarrow> error + PropertyValue list" where
  "legacyToProductGroupAdditionalProperties p =
     (case allSpecifications p of
        None \<Rightarrow> Inr []
      | Some names \<Rightarrow>
          flatMapE (\<lambda>n. specificationValues ''SPECIFICATION'' n (productProperty p n)) names)"

text \<open>
  \<^verbatim>\<open>{ properties = [] }\<close>: the default stands for an absent property, which is \<open>None\<close>;
  the declared type of \<^verbatim>\<open>properties\<close> has no \<^verbatim>\<open>null\<close>.
\<close>

definition toProductGroupAdditionalProperties :: "ProductVTEX \<Rightarrow> PropertyValue list" where
  "toProductGroupAdditionalProperties p =
     (let props = (case properties p of None \<Rightarrow> [] | Some ps \<Rightarrow> ps) in
      concat (map (\<lambda>nv. map (\<lambda>v. \<lparr> pv_name = nv_name nv, pv_value = StringValue v,
                                      valueReference = Some ''PROPERTY'' \<rparr>) (nv_values nv))
                props))"

text \<open>
  \<^verbatim>\<open>toAdditionalProperties\<close> destructures every entry as \<^verbatim>\<open>{ name, values }\<close>: on a string
  entry \<^verbatim>\<open>values\<close> is \<^verbatim>\<open>undefined\<close> and \<^verbatim>\<open>values.map\<close> throws.
\<close>

definition toAdditionalProperties :: "SkuVTEX \<Rightarrow> error + PropertyValue list" where
  "toAdditionalProperties sk =
     (case variations sk of
        None \<Rightarrow> Inr []
      | Some (ModernVariations nvs) \<Rightarrow>
          Inr (concat (map (\<lambda>nv. map (\<lambda>v. \<lparr> pv_name = nv_name nv, pv_value = StringValue v,
                                               valueReference = Some ''SPECIFICATION'' \<rparr>)
                                  (nv_values nv)) nvs))
      | Some (LegacyVariations ns) \<Rightarrow> if ns = [] then Inr [] else Inl TypeError)"

text \<open>
  \<^verbatim>\<open>toAdditionalPropertiesLegacy\<close> reads \<^verbatim>\<open>sku[variation]\<close>. Its parameter type has
  strings for entries; an entry that is an object is taken to name no property that
  holds an array.
\<close>

definition toAdditionalPropertiesLegacy :: "SkuVTEX \<Rightarrow> error + PropertyValue list" where
  "toAdditionalPropertiesLegacy sk =
     (case variations sk of
        None \<Rightarrow> Inr []
      | Some (LegacyVariations ns) \<Rightarrow>
          flatMapE (\<lambda>n. specificationValues ''SPECIFICATION'' n (skuProperty sk n)) ns
      | Some (ModernVariations nvs) \<Rightarrow> if nvs = [] then Inr [] else Inl TypeError)"

text \<open>
  Stock-then-price order of an array of offers: no out-of-stock offer stands before an
  offer in stock, and two offers of the same availability stand in the order of their
  prices.
\<close>

definition stockThenPrice :: "Offer list \<Rightarrow> bool" where
  "stockThenPrice os =
     sorted_wrt (\<lambda>a b. (inStock b \<longrightarrow> inStock a) \<and> (inStock a = inStock b \<longrightarrow> price a \<le> price b)) os"

subsection \<open>Products\<close>

text \<open>The callback of \<^verbatim>\<open>images.map\<close> in \<^verbatim>\<open>toProduct\<close>.\<close>

definition toImageObject :: "ImageVTEX \<Rightarrow> ImageObject" where
  "toImageObject img =
     \<lparr> alternateName = (case imageText img of Some t \<Rightarrow> t | None \<Rightarrow> []),
       io_url = imageUrl img \<rparr>"

text \<open>
  The \<^verbatim>\<open>offers\<close> property of the result: \<^verbatim>\<open>undefined\<close> when the sku has no seller.
\<close>

definition toAggregateOffer :: "string \<Rightarrow> Offer list \<Rightarrow> int \<Rightarrow> AggregateOffer option" where
  "toAggregateOffer currency os highPriceIndex =
     (if length os > 0 then
        Some \<lparr> agg_priceCurrency = currency,
               highPrice = map_option price (at_index os highPriceIndex),
               lowPrice = map_option price (at_index os 0),
               offerCount = length os,
               agg_offers = os \<rparr>
      else None)"

text \<open>
  \<^verbatim>\<open>toProduct\<close>, in the order of the source. \<open>level\<close> is the third parameter; the only
  recursive call stands under \<^verbatim>\<open>level < 1 &&\<close> and passes \<open>1\<close>.
\<close>

function (domintros) toProduct ::
  "platform \<Rightarrow> ProductVTEX \<Rightarrow> SkuVTEX \<Rightarrow> int \<Rightarrow> ProductOptions \<Rightarrow> error + Product" where
  "toProduct pf p sk level options =
     (case (if isLegacyProduct p then legacyToProductGroupAdditionalProperties p
            else Inr (toProductGroupAdditionalProperties p)) of
        Inl e \<Rightarrow> Inl e
      | Inr groupAdditionalProperty \<Rightarrow>
     (case (if isLegacySku sk then toAdditionalPropertiesLegacy sk
            else toAdditionalProperties sk) of
        Inl e \<Rightarrow> Inl e
      | Inr specificationsAdditionalProperty \<Rightarrow>
     (let imgs = (case nonEmptyArray (images sk) of Some xs \<Rightarrow> xs | None \<Rightarrow> [DEFAULT_IMAGE]);
          os = js_sort bestOfferFirst (map toOffer (sellers sk))
      in
     (case (if level < 1
            then sequence (map (\<lambda>sk'. toProduct pf p sk' 1 options) (items p))
            else Inr []) of
        Inl e \<Rightarrow> Inl e
      | Inr variants \<Rightarrow>
     (case getHighPriceIndex os of
        Inl e \<Rightarrow> Inl e
      | Inr highPriceIndex \<Rightarrow>
     (case splitCategory (at_index (categories p) 0) of
        Inl e \<Rightarrow> Inl e
      | Inr cats \<Rightarrow>
     (case toAdditionalPropertyCategories p of
        Inl e \<Rightarrow> Inl e
      | Inr categoryAdditionalProperties \<Rightarrow>
     (case getProductURL pf (url options) p (Some (itemId sk)) of
        Inl e \<Rightarrow> Inl e
      | Inr productUrl \<Rightarrow>
     (case getProductURL pf (url options) p (Some (itemId sk)) of
        Inl e \<Rightarrow> Inl e
      | Inr groupUrl \<Rightarrow>
        Inr (Product
              (js_join ''>'' cats)
              (itemId sk)
              (href productUrl)
              (sku_name sk)
              (vtex_description p)
              (vtex_brand p)
              (itemId sk)
              (ean sk)
              (vtex_releaseDate p)
              (specificationsAdditionalProperty @ categoryAdditionalProperties)
              (ProductGroup
                (productId p)
                variants
                (href groupUrl)
                (productName p)
                groupAdditionalProperty
                (productReference p))
              (map toImageObject imgs)
              (toAggregateOffer (priceCurrency options) os highPriceIndex)))))))))))"
  by pat_completeness auto
termination
  by (relation "measure (\<lambda>(pf, p, sk, level, options). nat (1 - level))") auto

declare toProduct.simps [simp del]

subsection \<open>Breadcrumbs and the product page\<close>

text \<open>The callback of \<^verbatim>\<open>categories.reverse().map\<close> in \<^verbatim>\<open>toBreadcrumbList\<close>.\<close>

definition toBreadcrumbItem :: "platform \<Rightarrow> URL \<Rightarrow> nat \<times> string \<Rightarrow> error + ListItem" where
  "toBreadcrumbItem pf u ic =
     (case ic of (index, categoryPath) \<Rightarrow>
        (let splitted = filter (\<lambda>seg. seg \<noteq> []) (js_split CHR ''/'' categoryPath);
             nm = at_index splitted (int (length splitted) - 1);
             it = js_join ''/'' (map (slugify pf) splitted)
         in case new_URL pf (''/'' @ it) (origin u) of
              Inl e \<Rightarrow> Inl e
            | Inr iu \<Rightarrow> Inr \<lparr> li_name = nm, item = href iu, position = index + 1 \<rparr>))"

text \<open>
  \<^verbatim>\<open>categories.reverse()\<close> reverses the array of the product in place and returns it, so
  \<^verbatim>\<open>toBreadcrumbList\<close> returns the product as the call leaves it together with its result.
\<close>

definition toBreadcrumbList ::
  "platform \<Rightarrow> ProductVTEX \<Rightarrow> ProductOptions \<Rightarrow> ProductVTEX \<times> (error + BreadcrumbList)" where
  "toBreadcrumbList pf p options =
     (let cs = rev (categories p);
          p' = p\<lparr>categories := cs\<rparr>
      in (p',
          (case sequence (map (toBreadcrumbItem pf (url options)) (enumerate 0 cs)) of
             Inl e \<Rightarrow> Inl e
           | Inr elems \<Rightarrow>
               (case getCanonicalURL pf (url options) p' of
                  Inl e \<Rightarrow> Inl e
                | Inr cu \<Rightarrow>
                    Inr \<lparr> itemListElement =
                            elems @ [\<lparr> li_name = Some (productName p'), item = href cu,
                                       position = length cs + 1 \<rparr>],
                          numberOfItems = length cs + 1 \<rparr>))))"

text \<open>
  \<^verbatim>\<open>toProductPage\<close>: the product after the call, and the page or the exception. The
  object literal evaluates \<^verbatim>\<open>toBreadcrumbList\<close> before \<^verbatim>\<open>toProduct\<close>.
\<close>

definition toProductPage ::
  "platform \<Rightarrow> ProductVTEX \<Rightarrow> string option \<Rightarrow> ProductOptions
     \<Rightarrow> ProductVTEX \<times> (error + ProductDetailsPage)" where
  "toProductPage pf p maybeSkuId options =
     (let skuId = (case maybeSkuId of
                     Some s \<Rightarrow> Some s
                   | None \<Rightarrow> map_option itemId (at_index (items p) 0))
      in case find (\<lambda>it. Some (itemId it) = skuId) (items p) of
           None \<Rightarrow> (p, Inl (MissingSku skuId (productName p)))
         | Some sk \<Rightarrow>
             (case toBreadcrumbList pf p options of
                (p', Inl e) \<Rightarrow> (p', Inl e)
              | (p', Inr bl) \<Rightarrow>
                  (case toProduct pf p' sk 0 options of
                     Inl e \<Rightarrow> (p', Inl e)
                   | Inr pr \<Rightarrow> (p', Inr \<lparr> breadcrumbList = bl, product = pr \<rparr>))))"

subsection \<open>Legacy facets\<close>

definition unselect :: "platform \<Rightarrow> LegacyFacet \<Rightarrow> URL \<Rightarrow> string \<Rightarrow> error + string" where
  "unselect pf facet u m =
     (let mapSegments = js_split CHR '','' m in
      if length mapSegments = 1 then Inr (pathname u @ search u)
      else
        (let index = findIndex (\<lambda>segment. segment = Map facet) mapSegments;
             spliced = splice mapSegments index (if index > - 1 then 1 else 0)
         in case new_URL pf (js_replace (''/'' @ Value facet) [] (pathname u)) (origin u) of
              Inl e \<Rightarrow> Inl e
            | Inr newUrl \<Rightarrow>
                (let newUrl1 = set_search pf newUrl (search u);
                     newUrl2 = (if length spliced > 0
                                then searchParams_set pf newUrl1 ''map'' (js_join '','' spliced)
                                else newUrl1)
                 in Inr (pathname newUrl2 @ search newUrl2))))"

text \<open>The callback of \<^verbatim>\<open>facets.map\<close> in \<^verbatim>\<open>legacyFacetToFilter\<close>.\<close>

definition legacyFacetValue ::
  "platform \<Rightarrow> string list \<Rightarrow> string list \<Rightarrow> URL \<Rightarrow> string \<Rightarrow> LegacyFacet
     \<Rightarrow> error + FilterToggleValue" where
  "legacyFacetValue pf mapSegments pathSegments u m facet =
     (let sel = (has mapSegments (Map facet) \<and> has pathSegments (Value facet)) in
      case (if sel then unselect pf facet u m else Inr (LinkEncoded facet)) of
        Inl e \<Rightarrow> Inl e
      | Inr h \<Rightarrow>
          Inr \<lparr> fv_value = Value facet, fv_quantity = Quantity facet, fv_url = h,
                fv_label = Name facet, selected = sel \<rparr>)"

definition legacyFacetToFilter ::
  "platform \<Rightarrow> string \<Rightarrow> LegacyFacet list \<Rightarrow> URL \<Rightarrow> string \<Rightarrow> error + FilterToggle" where
  "legacyFacetToFilter pf nm facets u m =
     (let mapSegments = js_Set (js_split CHR '','' m);
          pathSegments = js_Set (take (length mapSegments + 1) (js_split CHR ''/'' (pathname u)))
      in case sequence (map (legacyFacetValue pf mapSegments pathSegments u m) facets) of
           Inl e \<Rightarrow> Inl e
         | Inr vs \<Rightarrow>
             Inr \<lparr> ft_quantity = length facets, label = nm, key = nm, ft_values = vs \<rparr>)"

subsection \<open>Search parameters of the selected facets\<close>

text \<open>
  A \<^verbatim>\<open>URLSearchParams\<close> object is its list of name-value pairs: \<^verbatim>\<open>append\<close> adds a pair
  at the end and \<^verbatim>\<open>forEach\<close> visits the pairs in order.
\<close>

type_synonym URLSearchParams = "(string \<times> string) list"

definition filtersToSearchParams :: "SelectedFacet list \<Rightarrow> URLSearchParams" where
  "filtersToSearchParams selectedFacets =
     foldl (\<lambda>searchParams sf. searchParams @ [(''filter.'' @ facet_key sf, facet_value sf)])
       [] selectedFacets"

text \<open>The callback of \<^verbatim>\<open>params.forEach\<close>, on the array built so far.\<close>

definition readFilter :: "SelectedFacet list \<Rightarrow> string \<times> string \<Rightarrow> SelectedFacet list" where
  "readFilter selectedFacets nv =
     (case nv of (n, v) \<Rightarrow>
        (let parts = js_split CHR ''.'' n in
         case (at_index parts 0, at_index parts 1) of
           (Some flt, Some k) \<Rightarrow>
             if flt = ''filter''
             then selectedFacets @ [\<lparr> facet_key = k, facet_value = v \<rparr>]
             else selectedFacets
         | _ \<Rightarrow> selectedFacets))"

definition filtersFromSearchParams :: "URLSearchParams \<Rightarrow> SelectedFacet list" where
  "filtersFromSearchParams params = foldl readFilter [] params"

subsection \<open>A platform for evaluation\<close>

text \<open>
  A small instance of the platform on which the functions can be run: it agrees with the
  URL standard when the base is an origin and the reference is a path, with or without
  a query, made of letters, digits, \<^verbatim>\<open>/\<close>, \<^verbatim>\<open>-\<close>, \<^verbatim>\<open>=\<close>, \<^verbatim>\<open>&\<close> and \<^verbatim>\<open>,\<close> only. Its slug
  helper is the identity.
\<close>

definition plain_newURL :: "string \<Rightarrow> string \<Rightarrow> URL option" where
  "plain_newURL rel base =
     (let pth = takeWhile (\<lambda>c. c \<noteq> CHR ''?'') rel;
          qry = dropWhile (\<lambda>c. c \<noteq> CHR ''?'') rel;
          pth' = (if pth = [] then ''/'' else if hd pth = CHR ''/'' then pth else CHR ''/'' # pth);
          qry' = (if qry = ''?'' then [] else qry)
      in Some \<lparr> href = base @ pth' @ qry', origin = base, pathname = pth', search = qry' \<rparr>)"

definition plain_set_search :: "URL \<Rightarrow> string \<Rightarrow> URL" where
  "plain_set_search u s =
     (let q = (if s = [] \<or> s = ''?'' then [] else if hd s = CHR ''?'' then s else CHR ''?'' # s)
      in u\<lparr> search := q, href := origin u @ pathname u @ q \<rparr>)"

definition parseQuery :: "string \<Rightarrow> (string \<times> string) list" where
  "parseQuery q =
     (let body = (if q \<noteq> [] \<and> hd q = CHR ''?'' then tl q else q) in
      map (\<lambda>kv. (takeWhile (\<lambda>c. c \<noteq> CHR ''='') kv, drop 1 (dropWhile (\<lambda>c. c \<noteq> CHR ''='') kv)))
        (filter (\<lambda>kv. kv \<noteq> []) (js_split CHR ''&'' body)))"

fun setPair :: "string \<Rightarrow> string \<Rightarrow> (string \<times> string) list \<Rightarrow> (string \<times> string) list" where
  "setPair k v [] = [(k, v)]"
| "setPair k v (kv # kvs) =
     (if fst kv = k then (k, v) # filter (\<lambda>kv'. fst kv' \<noteq> k) kvs else kv # setPair k v kvs)"

definition plain_searchParams_set :: "URL \<Rightarrow> string \<Rightarrow> string \<Rightarrow> URL" where
  "plain_searchParams_set u k v =
     (let q = CHR ''?'' # js_join ''&'' (map (\<lambda>kv. fst kv @ ''='' @ snd kv)
                                         (setPair k v (parseQuery (search u))))
      in u\<lparr> search := q, href := origin u @ pathname u @ q \<rparr>)"

definition plainPlatform :: platform where
  "plainPlatform =
     \<lparr> newURL = plain_newURL, searchParams_set = plain_searchParams_set,
       set_search = plain_set_search, slugify = (\<lambda>s. s) \<rparr>"

subsection \<open>The requested variant and the conditions on the payload\<close>

text \<open>The id that \<^verbatim>\<open>toProductPage\<close> looks for: \<^verbatim>\<open>maybeSkuId ?? product.items[0]?.itemId\<close>.\<close>

definition requestedSkuId :: "ProductVTEX \<Rightarrow> string option \<Rightarrow> string option" where
  "requestedSkuId p maybeSkuId =
     (case maybeSkuId of
        Some s \<Rightarrow> Some s
      | None \<Rightarrow> map_option itemId (at_index (items p) 0))"

text \<open>The requested variant is present: some item of the product has the requested id.\<close>

definition variantPresent :: "ProductVTEX \<Rightarrow> string option \<Rightarrow> bool" where
  "variantPresent p maybeSkuId =
     (\<exists>it \<in> set (items p). Some (itemId it) = requestedSkuId p maybeSkuId)"

text \<open>
  Conditions on the payload. Every name in \<^verbatim>\<open>allSpecifications\<close> of a legacy product
  names a property of the product that holds an array; every legacy variation of a sku
  names a property of the sku that holds an array; and the product has a first category
  and a first category id.
\<close>

definition specificationsDefined :: "ProductVTEX \<Rightarrow> bool" where
  "specificationsDefined p =
     (isLegacyProduct p \<longrightarrow>
        (case allSpecifications p of
           None \<Rightarrow> True
         | Some names \<Rightarrow> \<forall>n \<in> set names. productProperty p n \<noteq> None))"

definition variationsDefined :: "SkuVTEX \<Rightarrow> bool" where
  "variationsDefined sk =
     (case variations sk of
        Some (LegacyVariations ns) \<Rightarrow> \<forall>n \<in> set ns. skuProperty sk n \<noteq> None
      | _ \<Rightarrow> True)"

definition payloadDefined :: "ProductVTEX \<Rightarrow> bool" where
  "payloadDefined p =
     (categories p \<noteq> [] \<and> categoriesIds p \<noteq> [] \<and> specificationsDefined p \<and>
      (\<forall>sk \<in> set (items p). variationsDefined sk))"

text \<open>
  The references that a call of \<^verbatim>\<open>toProductPage\<close> passes to the URL constructor, all on
  the origin of the request: the path \<^verbatim>\<open>/linkText/p\<close>, and for every category of the
  product the path of its slugs. \<open>urlsAccepted\<close> says that the constructor accepts them.
\<close>

definition breadcrumbReference :: "platform \<Rightarrow> string \<Rightarrow> string" where
  "breadcrumbReference pf categoryPath =
     ''/'' @ js_join ''/'' (map (slugify pf)
                             (filter (\<lambda>seg. seg \<noteq> []) (js_split CHR ''/'' categoryPath)))"

definition urlsAccepted :: "platform \<Rightarrow> ProductVTEX \<Rightarrow> ProductOptions \<Rightarrow> bool" where
  "urlsAccepted pf p options =
     (newURL pf (''/'' @ linkText p @ ''/p'') (origin (url options)) \<noteq> None \<and>
      (\<forall>c \<in> set (categories p).
         newURL pf (breadcrumbReference pf c) (origin (url options)) \<noteq> None))"


subsection \<open>Inputs for evaluation\<close>

definition exampleSeller :: "string \<Rightarrow> number option \<Rightarrow> number \<Rightarrow> number \<Rightarrow> SellerVTEX" where
  "exampleSeller sid sp pr q =
     \<lparr> sellerId = sid,
       commertialOffer =
         \<lparr> spotPrice = sp, Price = pr, ListPrice = pr, PriceValidUntil = ''2030-01-01'',
           AvailableQuantity = q, Installments = [] \<rparr> \<rparr>"

definition exampleSku :: "string \<Rightarrow> SellerVTEX list \<Rightarrow> SkuVTEX" where
  "exampleSku i ss =
     \<lparr> itemId = i, sku_name = ''Shirt M'', ean = ''789'', variations = None, images = None,
       sellers = ss, variationFields = [] \<rparr>"

definition exampleProduct :: "string list \<Rightarrow> SkuVTEX list \<Rightarrow> ProductVTEX" where
  "exampleProduct cs is =
     \<lparr> productId = ''1'', productName = ''Shirt'', vtex_brand = ''acme'', linkText = ''shirt'',
       productReference = ''r1'', vtex_description = ''a shirt'', vtex_releaseDate = ''2020'',
       categories = cs, categoriesIds = [''/1/2/''],
       vtex_origin = Some ''intelligent-search'', allSpecifications = None, properties = None,
       specificationFields = [], items = is \<rparr>"

definition exampleOptions :: ProductOptions where
  "exampleOptions =
     \<lparr> url = \<lparr> href = ''https://x.com/a'', origin = ''https://x.com'', pathname = ''/a'',
               search = [] \<rparr>,
       priceCurrency = ''USD'' \<rparr>"

text \<open>
  A sku with one seller in stock at 50 and two sellers out of stock at 10 and at 100.
\<close>

definition sku3 :: SkuVTEX where
  "sku3 = exampleSku ''7''
            [exampleSeller ''A'' None 50 1, exampleSeller ''B'' None 10 0,
             exampleSeller ''C'' None 100 0]"

definition product3 :: ProductVTEX where
  "product3 = exampleProduct [''/a/b/'', ''/a/''] [sku3]"

text \<open>A seller whose spot price differs from its price.\<close>

definition spotSeller :: SellerVTEX where
  "spotSeller = exampleSeller ''A'' (Some 90) 100 1"



definition skuNoId :: SkuVTEX where
  "skuNoId = exampleSku [] []"

text \<open>
  A legacy product whose specifications name its property \<^verbatim>\<open>categories\<close>, and one whose
  specifications name a property that it does not have.
\<close>

definition productSpecCategories :: ProductVTEX where
  "productSpecCategories =
     product3\<lparr> vtex_origin := None, allSpecifications := Some [''categories''] \<rparr>"

definition productSpecMissing :: ProductVTEX where
  "productSpecMissing =
     product3\<lparr> vtex_origin := None, allSpecifications := Some [''Fabric''] \<rparr>"

text \<open>A platform whose URL constructor rejects the reference \<^verbatim>\<open>//\<close>, as the standard does.\<close>

definition strictPlatform :: platform where
  "strictPlatform =
     plainPlatform\<lparr> newURL := (\<lambda>rel base. if rel = ''//'' then None else plain_newURL rel base) \<rparr>"

text \<open>A product without categories.\<close>

definition productNoCategories :: ProductVTEX where
  "productNoCategories = exampleProduct [] [sku3]"

text \<open>
  A legacy search at \<^verbatim>\<open>/reddish/red?map=c,color\<close>, and the facet of the color red, which
  is part of it.
\<close>

definition redFacet :: LegacyFacet where
  "redFacet = \<lparr> Quantity = 3, Name = ''Red'', Link = ''/reddish/red?map=c,color'',
                 LinkEncoded = ''/reddish/red?map=c,color'', Map = ''color'', Value = ''red'' \<rparr>"

definition reddishUrl :: URL where
  "reddishUrl = \<lparr> href = ''https://x.com/reddish/red?map=c,color'', origin = ''https://x.com'',
                   pathname = ''/reddish/red'', search = ''?map=c,color'' \<rparr>"

section \<open>Properties\<close>

subsection \<open>Splitting strings\<close>

lemma js_split_no_sep: "c \<notin> set xs \<Longrightarrow> js_split c xs = [xs]"
  by (induction xs) auto

lemma js_split_at_sep: "c \<notin> set xs \<Longrightarrow> js_split c (xs @ c # ys) = xs # js_split c ys"
  by (induction xs) auto

lemma split_prefixed_name:
  assumes "CHR ''.'' \<notin> set pre" "CHR ''.'' \<notin> set k"
  shows "js_split CHR ''.'' (pre @ CHR ''.'' # k) = [pre, k]"
  using assms by (simp add: js_split_at_sep js_split_no_sep del: js_split.simps)

subsection \<open>Selected facets survive the trip through the search parameters\<close>

lemma append_foldl_map: "foldl (\<lambda>acc x. acc @ [g x]) acc xs = acc @ map g xs"
  by (induction xs arbitrary: acc) auto

lemma filtersToSearchParams_map:
  "filtersToSearchParams fs = map (\<lambda>sf. (''filter.'' @ facet_key sf, facet_value sf)) fs"
  unfolding filtersToSearchParams_def by (rule append_foldl_map[where acc="[]", simplified])

lemma readFilter_filter:
  assumes "CHR ''.'' \<notin> set (facet_key sf)"
  shows "readFilter acc (''filter.'' @ facet_key sf, facet_value sf) = acc @ [sf]"
proof -
  have "js_split CHR ''.'' (''filter'' @ CHR ''.'' # facet_key sf) = [''filter'', facet_key sf]"
    by (rule split_prefixed_name) (simp_all add: assms)
  then have "js_split CHR ''.'' (''filter.'' @ facet_key sf) = [''filter'', facet_key sf]"
    by simp
  then show ?thesis
    unfolding readFilter_def by (simp add: at_index_def del: js_split.simps)
qed

lemma filtersFromSearchParams_foldl:
  "\<forall>sf \<in> set fs. CHR ''.'' \<notin> set (facet_key sf) \<Longrightarrow>
   foldl readFilter acc (map (\<lambda>sf. (''filter.'' @ facet_key sf, facet_value sf)) fs) = acc @ fs"
proof (induction fs arbitrary: acc)
  case Nil
  show ?case by simp
next
  case (Cons sf fs)
  have "readFilter acc (''filter.'' @ facet_key sf, facet_value sf) = acc @ [sf]"
    using Cons.prems by (intro readFilter_filter) simp
  with Cons show ?case by (simp del: append.simps)
qed

text \<open>
  C9. For every list \<open>fs\<close> of selected facets in which no key contains the character
  \<^verbatim>\<open>.\<close>, \<^verbatim>\<open>filtersFromSearchParams(filtersToSearchParams(fs))\<close> is \<open>fs\<close>: the same pairs in
  the same order.
\<close>

theorem filters_roundtrip:
  assumes "\<forall>sf \<in> set fs. CHR ''.'' \<notin> set (facet_key sf)"
  shows "filtersFromSearchParams (filtersToSearchParams fs) = fs"
  using filtersFromSearchParams_foldl[OF assms, of "[]"]
  by (simp add: filtersFromSearchParams_def filtersToSearchParams_map)

theorem filters_roundtrip_witness:
  "filtersFromSearchParams (filtersToSearchParams
      [\<lparr>facet_key = ''color'', facet_value = ''red''\<rparr>,
       \<lparr>facet_key = [], facet_value = ''a.b''\<rparr>])
    = [\<lparr>facet_key = ''color'', facet_value = ''red''\<rparr>,
       \<lparr>facet_key = [], facet_value = ''a.b''\<rparr>]"
  using filters_roundtrip[of "[\<lparr>facet_key = ''color'', facet_value = ''red''\<rparr>,
                               \<lparr>facet_key = [], facet_value = ''a.b''\<rparr>]"]
  by simp

subsection \<open>Sorting with a comparator\<close>

lemma set_insertBy: "set (insertBy cmp x xs) = insert x (set xs)"
  by (induction xs) auto

lemma mset_insertBy: "mset (insertBy cmp x xs) = add_mset x (mset xs)"
  by (induction xs) auto

lemma mset_js_sort: "mset (js_sort cmp xs) = mset xs"
  by (induction xs) (auto simp: mset_insertBy)

lemma sorted_insertBy:
  assumes total: "\<And>a b. cmp a b > 0 \<Longrightarrow> cmp b a \<le> 0"
    and trans: "\<And>a b c. cmp a b \<le> 0 \<Longrightarrow> cmp b c \<le> 0 \<Longrightarrow> cmp a c \<le> 0"
    and "sorted_wrt (\<lambda>a b. cmp a b \<le> 0) xs"
  shows "sorted_wrt (\<lambda>a b. cmp a b \<le> 0) (insertBy cmp x xs)"
  using assms(3)
proof (induction xs)
  case Nil
  show ?case by simp
next
  case (Cons y ys)
  show ?case
  proof (cases "cmp x y \<le> 0")
    case True
    with Cons.prems trans show ?thesis by auto
  next
    case False
    then have "cmp y x \<le> 0" using total[of x y] by simp
    with False Cons show ?thesis by (auto simp: set_insertBy)
  qed
qed

lemma sorted_js_sort:
  assumes total: "\<And>a b. cmp a b > 0 \<Longrightarrow> cmp b a \<le> 0"
    and trans: "\<And>a b c. cmp a b \<le> 0 \<Longrightarrow> cmp b c \<le> 0 \<Longrightarrow> cmp a c \<le> 0"
  shows "sorted_wrt (\<lambda>a b. cmp a b \<le> 0) (js_sort cmp xs)"
  by (induction xs) (simp_all add: sorted_insertBy[OF total trans])

subsection \<open>The order of the offers\<close>

lemma bestOfferFirst_total: "bestOfferFirst a b > 0 \<Longrightarrow> bestOfferFirst b a \<le> 0"
  by (auto simp: bestOfferFirst_def split: if_splits)

lemma bestOfferFirst_trans:
  "bestOfferFirst a b \<le> 0 \<Longrightarrow> bestOfferFirst b c \<le> 0 \<Longrightarrow> bestOfferFirst a c \<le> 0"
  by (auto simp: bestOfferFirst_def split: if_splits)

lemma bestOfferFirst_order:
  "bestOfferFirst a b \<le> 0 \<Longrightarrow>
     (inStock b \<longrightarrow> inStock a) \<and> (inStock a = inStock b \<longrightarrow> price a \<le> price b)"
  by (auto simp: bestOfferFirst_def split: if_splits)

lemma stockThenPrice_js_sort: "stockThenPrice (js_sort bestOfferFirst xs)"
  unfolding stockThenPrice_def
  by (rule sorted_wrt_mono_rel[OF _ sorted_js_sort[of bestOfferFirst, OF bestOfferFirst_total bestOfferFirst_trans]])
     (use bestOfferFirst_order in blast)

subsection \<open>What a call of toProduct that returns has computed\<close>

lemma toProduct_Inr:
  assumes "toProduct pf p sk level options = Inr r"
  obtains ga sa vs k cats cap pu where
    "(if isLegacyProduct p then legacyToProductGroupAdditionalProperties p
      else Inr (toProductGroupAdditionalProperties p)) = Inr ga"
    "(if isLegacySku sk then toAdditionalPropertiesLegacy sk else toAdditionalProperties sk) = Inr sa"
    "(if level < 1 then sequence (map (\<lambda>sk'. toProduct pf p sk' 1 options) (items p)) else Inr []) = Inr vs"
    "getHighPriceIndex (js_sort bestOfferFirst (map toOffer (sellers sk))) = Inr k"
    "splitCategory (at_index (categories p) 0) = Inr cats"
    "toAdditionalPropertyCategories p = Inr cap"
    "getProductURL pf (url options) p (Some (itemId sk)) = Inr pu"
    "r = Product (js_join ''>'' cats) (itemId sk) (href pu) (sku_name sk) (vtex_description p)
           (vtex_brand p) (itemId sk) (ean sk) (vtex_releaseDate p) (sa @ cap)
           (ProductGroup (productId p) vs (href pu) (productName p) ga (productReference p))
           (map toImageObject (case nonEmptyArray (images sk) of Some xs \<Rightarrow> xs | None \<Rightarrow> [DEFAULT_IMAGE]))
           (toAggregateOffer (priceCurrency options) (js_sort bestOfferFirst (map toOffer (sellers sk))) k)"
  using assms
  by (subst (asm) toProduct.simps) (simp add: Let_def split: sum.splits)

subsection \<open>The index of the high price\<close>

lemma getHighPriceIndex_for_spec:
  "0 \<le> it \<Longrightarrow> it < int (length os) \<Longrightarrow>
   \<exists>k. getHighPriceIndex_for os it = Inr k \<and> 0 \<le> k \<and> k \<le> it
       \<and> (0 < k \<longrightarrow> inStock (os ! nat k))
       \<and> (\<forall>j. k < j \<and> j \<le> it \<longrightarrow> \<not> inStock (os ! nat j))"
proof (induction os it rule: getHighPriceIndex_for.induct)
  case (1 os it)
  show ?case
  proof (cases "it > 0 \<and> \<not> inStock (os ! nat it)")
    case True
    then have step: "getHighPriceIndex_for os it = getHighPriceIndex_for os (it - 1)"
      using "1.prems" by (subst getHighPriceIndex_for.simps) (simp add: at_index_def)
    have "\<exists>k. getHighPriceIndex_for os (it - 1) = Inr k \<and> 0 \<le> k \<and> k \<le> it - 1
       \<and> (0 < k \<longrightarrow> inStock (os ! nat k))
       \<and> (\<forall>j. k < j \<and> j \<le> it - 1 \<longrightarrow> \<not> inStock (os ! nat j))"
      using True "1.prems" by (intro "1.IH"[of "os ! nat it"]) (simp_all add: at_index_def)
    then obtain k where k: "getHighPriceIndex_for os (it - 1) = Inr k" "0 \<le> k" "k \<le> it - 1"
       "0 < k \<longrightarrow> inStock (os ! nat k)"
       "\<forall>j. k < j \<and> j \<le> it - 1 \<longrightarrow> \<not> inStock (os ! nat j)" by blast
    have "\<not> inStock (os ! nat j)" if "k < j" "j \<le> it" for j
    proof (cases "j = it")
      case True
      with \<open>it > 0 \<and> \<not> inStock (os ! nat it)\<close> show ?thesis by simp
    next
      case False
      with that k(5) show ?thesis by simp
    qed
    with k step show ?thesis by auto
  next
    case False
    then have "getHighPriceIndex_for os it = Inr it"
      using "1.prems" by (subst getHighPriceIndex_for.simps) (auto simp: at_index_def)
    with False "1.prems" show ?thesis by auto
  qed
qed

lemma getHighPriceIndex_spec:
  assumes "os \<noteq> []"
  shows "\<exists>k. getHighPriceIndex os = Inr (int k) \<and> k < length os
       \<and> (0 < k \<longrightarrow> inStock (os ! k))
       \<and> (\<forall>j. k < j \<and> j < length os \<longrightarrow> \<not> inStock (os ! j))"
proof -
  from assms have "0 \<le> int (length os) - 1" "int (length os) - 1 < int (length os)"
    by (cases os; simp)+
  from getHighPriceIndex_for_spec[OF this]
  obtain k where k: "getHighPriceIndex_for os (int (length os) - 1) = Inr k" "0 \<le> k"
     "k \<le> int (length os) - 1" "0 < k \<longrightarrow> inStock (os ! nat k)"
     "\<forall>j. k < j \<and> j \<le> int (length os) - 1 \<longrightarrow> \<not> inStock (os ! nat j)" by blast
  have "\<not> inStock (os ! j)" if "nat k < j" "j < length os" for j
    using k(5)[rule_format, of "int j"] that by auto
  with k show ?thesis
    by (intro exI[of _ "nat k"]) (auto simp: getHighPriceIndex_def)
qed

lemma getHighPriceIndex_empty: "getHighPriceIndex [] = Inr (- 1)"
  by (simp add: getHighPriceIndex_def getHighPriceIndex_for.simps)

text \<open>In a stock-then-price array the offers in stock are the first ones.\<close>

lemma stockThenPrice_nth:
  assumes "stockThenPrice os" "i < j" "j < length os"
  shows "inStock (os ! j) \<longrightarrow> inStock (os ! i)"
    and "inStock (os ! i) = inStock (os ! j) \<longrightarrow> price (os ! i) \<le> price (os ! j)"
  using assms sorted_wrt_nth_less[of _ os i j] unfolding stockThenPrice_def by blast+

lemma price_range_in_stock:
  assumes sorted: "stockThenPrice os" and "os \<noteq> []"
    and k: "k < length os" "0 < k \<longrightarrow> inStock (os ! k)"
           "\<forall>j. k < j \<and> j < length os \<longrightarrow> \<not> inStock (os ! j)"
    and some: "\<exists>x \<in> set os. inStock x"
  shows "Min (price ` {x \<in> set os. inStock x}) = price (os ! 0)"
    and "Max (price ` {x \<in> set os. inStock x}) = price (os ! k)"
proof -
  from some obtain m where m: "m < length os" "inStock (os ! m)"
    by (auto simp: in_set_conv_nth)
  have mk: "m \<le> k" using k(3) m by (meson not_le_imp_less)
  have stock_k: "inStock (os ! k)"
  proof (cases "k = 0")
    case True
    then show ?thesis using m stockThenPrice_nth(1)[OF sorted, of 0 m] by (cases "m = 0") auto
  next
    case False
    with k(2) show ?thesis by simp
  qed
  have below: "inStock (os ! i)" if "i \<le> k" for i
    using stockThenPrice_nth(1)[OF sorted, of i k] stock_k k(1) that by (cases "i = k") auto
  have S: "{x \<in> set os. inStock x} = (\<lambda>i. os ! i) ` {..k}"
  proof (intro set_eqI iffI)
    fix x assume "x \<in> {x \<in> set os. inStock x}"
    then obtain i where i: "i < length os" "x = os ! i" "inStock (os ! i)"
      by (auto simp: in_set_conv_nth)
    then have "i \<le> k" using k(3) by (meson not_le_imp_less)
    with i show "x \<in> (\<lambda>i. os ! i) ` {..k}" by auto
  next
    fix x assume "x \<in> (\<lambda>i. os ! i) ` {..k}"
    then show "x \<in> {x \<in> set os. inStock x}" using below k(1) by auto
  qed
  have lo: "price (os ! 0) \<le> price (os ! i)" if "i \<le> k" for i
    using stockThenPrice_nth(2)[OF sorted, of 0 i] below[of 0] below[OF that] k(1) that
    by (cases "i = 0") auto
  have hi: "price (os ! i) \<le> price (os ! k)" if "i \<le> k" for i
    using stockThenPrice_nth(2)[OF sorted, of i k] below[OF that] stock_k k(1) that
    by (cases "i = k") auto
  show "Min (price ` {x \<in> set os. inStock x}) = price (os ! 0)"
    unfolding S by (intro Min_eqI) (auto simp: lo)
  show "Max (price ` {x \<in> set os. inStock x}) = price (os ! k)"
    unfolding S by (intro Max_eqI) (auto simp: hi)
qed

lemma price_range_out_of_stock:
  assumes sorted: "stockThenPrice os" and "os \<noteq> []"
    and k: "k < length os" "0 < k \<longrightarrow> inStock (os ! k)"
    and none: "\<forall>x \<in> set os. \<not> inStock x"
  shows "k = 0" and "Min (price ` set os) = price (os ! 0)"
proof -
  show "k = 0" using k none by (cases "k = 0") auto
  have "price (os ! 0) \<le> price x" if "x \<in> set os" for x
  proof -
    from that obtain i where i: "i < length os" "x = os ! i" by (auto simp: in_set_conv_nth)
    then show ?thesis
      using stockThenPrice_nth(2)[OF sorted, of 0 i] none \<open>os \<noteq> []\<close>
      by (cases "i = 0") auto
  qed
  then show "Min (price ` set os) = price (os ! 0)"
    using \<open>os \<noteq> []\<close> by (intro Min_eqI) (auto simp: in_set_conv_nth intro!: image_eqI[of _ _ "os ! 0"] exI[of _ 0])
qed


subsection \<open>The offers of a product\<close>

lemma toProduct_offers:
  assumes "toProduct pf p sk level options = Inr r"
  shows "\<exists>k. getHighPriceIndex (js_sort bestOfferFirst (map toOffer (sellers sk))) = Inr k \<and>
             offers r = toAggregateOffer (priceCurrency options)
                          (js_sort bestOfferFirst (map toOffer (sellers sk))) k"
  using assms by (elim toProduct_Inr) simp

lemma js_sort_Nil_iff: "js_sort cmp xs = [] \<longleftrightarrow> xs = []"
  using mset_js_sort[of cmp xs] by (metis mset_zero_iff)

text \<open>
  C3. For every sku, the offers array that \<^verbatim>\<open>toProduct\<close> builds (the sellers mapped
  through \<^verbatim>\<open>toOffer\<close> and sorted with \<^verbatim>\<open>bestOfferFirst\<close>) holds the offers of the sellers
  in stock-then-price order: every offer in stock precedes every offer out of stock, and
  within each availability group the prices do not decrease.
\<close>

theorem offers_stock_then_price:
  assumes "toProduct pf p sk level options = Inr r"
  shows "case offers r of
           None \<Rightarrow> sellers sk = []
         | Some agg \<Rightarrow>
             agg_offers agg = js_sort bestOfferFirst (map toOffer (sellers sk)) \<and>
             mset (agg_offers agg) = mset (map toOffer (sellers sk)) \<and>
             stockThenPrice (agg_offers agg)"
proof -
  from toProduct_offers[OF assms] obtain k where
    "offers r = toAggregateOffer (priceCurrency options)
                  (js_sort bestOfferFirst (map toOffer (sellers sk))) k" by blast
  then show ?thesis
    by (simp add: toAggregateOffer_def js_sort_Nil_iff mset_js_sort stockThenPrice_js_sort
          del: mset_map)
qed

theorem offers_stock_then_price_witness:
  "\<exists>r agg. toProduct plainPlatform product3 sku3 0 exampleOptions = Inr r \<and>
     offers r = Some agg \<and>
     map seller (agg_offers agg) = [''A'', ''B'', ''C''] \<and>
     map price (agg_offers agg) = [50, 10, 100] \<and>
     stockThenPrice (agg_offers agg)"
proof -
  have "\<not> isl (toProduct plainPlatform product3 sku3 0 exampleOptions)"
    by code_simp
  then obtain r where r: "toProduct plainPlatform product3 sku3 0 exampleOptions = Inr r"
    by (cases "toProduct plainPlatform product3 sku3 0 exampleOptions") auto
  have s: "sellers sku3 \<noteq> []" by (simp add: sku3_def exampleSku_def)
  have e: "js_sort bestOfferFirst (map toOffer (sellers sku3))
           = map toOffer [exampleSeller ''A'' None 50 1, exampleSeller ''B'' None 10 0,
                          exampleSeller ''C'' None 100 0]"
    by code_simp
  from offers_stock_then_price[OF r] s e obtain agg where
    "offers r = Some agg" "agg_offers agg = map toOffer [exampleSeller ''A'' None 50 1, exampleSeller ''B'' None 10 0,
                          exampleSeller ''C'' None 100 0]" "stockThenPrice (agg_offers agg)"
    by (cases "offers r") auto
  with r show ?thesis
    by (intro exI[of _ r] exI[of _ agg]) (simp add: toOffer_def exampleSeller_def)
qed

lemma at_index_nat: "k < length xs \<Longrightarrow> at_index xs (int k) = Some (xs ! k)"
  by (simp add: at_index_def)

text \<open>
  C4, as the code has it. For every sku with at least one seller, the aggregate offer
  that \<^verbatim>\<open>toProduct\<close> returns spans the prices of the offers in stock: when some offer is in
  stock, \<^verbatim>\<open>lowPrice\<close> is the least and \<^verbatim>\<open>highPrice\<close> the greatest price among the
  offers in stock; when none is, both are the least price of all offers.
\<close>

theorem aggregate_price_range:
  assumes "toProduct pf p sk level options = Inr r" and "sellers sk \<noteq> []"
  shows "\<exists>agg. offers r = Some agg \<and>
           set (agg_offers agg) = toOffer ` set (sellers sk) \<and>
           (if \<exists>x \<in> set (agg_offers agg). inStock x
            then lowPrice agg = Some (Min (price ` {x \<in> set (agg_offers agg). inStock x})) \<and>
                 highPrice agg = Some (Max (price ` {x \<in> set (agg_offers agg). inStock x}))
            else lowPrice agg = Some (Min (price ` set (agg_offers agg))) \<and>
                 highPrice agg = Some (Min (price ` set (agg_offers agg))))"
proof -
  define os where "os = js_sort bestOfferFirst (map toOffer (sellers sk))"
  have ne: "os \<noteq> []" using assms(2) by (simp add: os_def js_sort_Nil_iff)
  have sorted: "stockThenPrice os" by (simp add: os_def stockThenPrice_js_sort)
  have set_os: "set os = toOffer ` set (sellers sk)"
    using mset_js_sort[of bestOfferFirst "map toOffer (sellers sk)"]
    by (metis os_def set_map set_mset_mset)
  from getHighPriceIndex_spec[OF ne] obtain k where k:
    "getHighPriceIndex os = Inr (int k)" "k < length os" "0 < k \<longrightarrow> inStock (os ! k)"
    "\<forall>j. k < j \<and> j < length os \<longrightarrow> \<not> inStock (os ! j)" by blast
  from toProduct_offers[OF assms(1)] k(1)
  have off: "offers r = toAggregateOffer (priceCurrency options) os (int k)"
    by (simp add: os_def)
  define agg where "agg = \<lparr> agg_priceCurrency = priceCurrency options,
               highPrice = Some (price (os ! k)), lowPrice = Some (price (os ! 0)),
               offerCount = length os, agg_offers = os \<rparr>"
  have agg: "offers r = Some agg"
    using off ne k(2) at_index_nat[of k os] at_index_nat[of 0 os]
    by (simp add: toAggregateOffer_def agg_def)
  show ?thesis
  proof (cases "\<exists>x \<in> set os. inStock x")
    case True
    from price_range_in_stock[OF sorted ne k(2,3,4) True] agg True set_os
    show ?thesis by (intro exI[of _ agg]) (simp add: agg_def)
  next
    case False
    then have none: "\<forall>x \<in> set os. \<not> inStock x" by simp
    from price_range_out_of_stock[OF sorted ne k(2,3) none] agg False set_os
    show ?thesis by (intro exI[of _ agg]) (simp add: agg_def)
  qed
qed

theorem aggregate_price_range_witness:
  "\<exists>r agg. toProduct plainPlatform product3 sku3 0 exampleOptions = Inr r \<and>
     offers r = Some agg \<and> lowPrice agg = Some 50 \<and> highPrice agg = Some 50 \<and>
     Min (price ` {x \<in> set (agg_offers agg). inStock x}) = 50 \<and>
     Max (price ` {x \<in> set (agg_offers agg). inStock x}) = 50"
proof -
  have "\<not> isl (toProduct plainPlatform product3 sku3 0 exampleOptions)"
    by code_simp
  then obtain r where r: "toProduct plainPlatform product3 sku3 0 exampleOptions = Inr r"
    by (cases "toProduct plainPlatform product3 sku3 0 exampleOptions") auto
  have s: "sellers sku3 \<noteq> []" by (simp add: sku3_def exampleSku_def)
  have lo: "map_option lowPrice (offers (projr (toProduct plainPlatform product3 sku3 0 exampleOptions))) = Some (Some 50)"
    by code_simp
  have hi: "map_option highPrice (offers (projr (toProduct plainPlatform product3 sku3 0 exampleOptions))) = Some (Some 50)"
    by code_simp
  have st: "\<exists>x \<in> toOffer ` set (sellers sku3). inStock x"
    by (simp add: sku3_def exampleSku_def exampleSeller_def toOffer_def inStock_def)
  from aggregate_price_range[OF r s] obtain agg where agg: "offers r = Some agg"
    "set (agg_offers agg) = toOffer ` set (sellers sku3)"
    "(if \<exists>x \<in> set (agg_offers agg). inStock x
            then lowPrice agg = Some (Min (price ` {x \<in> set (agg_offers agg). inStock x})) \<and>
                 highPrice agg = Some (Max (price ` {x \<in> set (agg_offers agg). inStock x}))
            else lowPrice agg = Some (Min (price ` set (agg_offers agg))) \<and>
                 highPrice agg = Some (Min (price ` set (agg_offers agg))))" by blast
  from agg(2) st have "\<exists>x \<in> set (agg_offers agg). inStock x" by simp
  with agg(3) have "lowPrice agg = Some (Min (price ` {x \<in> set (agg_offers agg). inStock x}))"
    "highPrice agg = Some (Max (price ` {x \<in> set (agg_offers agg). inStock x}))" by simp_all
  moreover from lo hi r agg(1) have "lowPrice agg = Some 50" "highPrice agg = Some 50" by simp_all
  ultimately show ?thesis using r agg(1) by (intro exI[of _ r] exI[of _ agg]) simp
qed

text \<open>
  The range is not the one of all offers: with one seller in stock at 50 and sellers out
  of stock at 10 and at 100, both \<^verbatim>\<open>lowPrice\<close> and \<^verbatim>\<open>highPrice\<close> are 50.
\<close>

theorem aggregate_price_range_counterexample:
  "\<not> isl (toProduct plainPlatform product3 sku3 0 exampleOptions) \<and>
   map_option lowPrice (offers (projr (toProduct plainPlatform product3 sku3 0 exampleOptions)))
     = Some (Some 50) \<and>
   map_option highPrice (offers (projr (toProduct plainPlatform product3 sku3 0 exampleOptions)))
     = Some (Some 50) \<and>
   map (price \<circ> toOffer) (sellers sku3) = [50, 10, 100] \<and>
   Min (set (map (price \<circ> toOffer) (sellers sku3))) = 10 \<and>
   Max (set (map (price \<circ> toOffer) (sellers sku3))) = 100"
  by code_simp


subsection \<open>The price of an offer\<close>

text \<open>
  C7, as the code has it. For every seller, \<^verbatim>\<open>toOffer\<close> maps \<^verbatim>\<open>commertialOffer.spotPrice\<close>
  to the \<^verbatim>\<open>price\<close> of the offer when the spot price is present, and
  \<^verbatim>\<open>commertialOffer.Price\<close> otherwise; \<^verbatim>\<open>commertialOffer.Price\<close> is always the price of the
  offer's sale price specification.
\<close>

theorem toOffer_price:
  "price (toOffer s) =
     (case spotPrice (commertialOffer s) of Some sp \<Rightarrow> sp | None \<Rightarrow> Price (commertialOffer s)) \<and>
   priceType (priceSpecification (toOffer s) ! 1) = ''https://schema.org/SalePrice'' \<and>
   ups_price (priceSpecification (toOffer s) ! 1) = Price (commertialOffer s)"
  by (simp add: toOffer_def Let_def)

text \<open>A seller with spot price 90 and price 100 gets an offer of price 90.\<close>

theorem toOffer_price_counterexample:
  "Price (commertialOffer spotSeller) = 100 \<and> price (toOffer spotSeller) = 90 \<and>
   price (toOffer spotSeller) \<noteq> Price (commertialOffer spotSeller)"
  by (simp add: spotSeller_def exampleSeller_def toOffer_def)

subsection \<open>The depth of the recursion\<close>

lemma toProduct_dom_level_one: "toProduct_dom (pf, p, sk, 1, options)"
  by (rule toProduct.domintros) simp

lemma toProduct_level_ge_1:
  assumes "1 \<le> level" "toProduct pf p sk level options = Inr r"
  shows "hasVariant (isVariantOf r) = []"
  using assms(2) by (elim toProduct_Inr) (use assms(1) in auto)

lemma sequence_Inr_nth:
  "sequence rs = Inr xs \<Longrightarrow> length xs = length rs \<and> (\<forall>i < length rs. rs ! i = Inr (xs ! i))"
proof (induction rs arbitrary: xs)
  case Nil
  then show ?case by simp
next
  case (Cons r rs)
  then show ?case
    by (auto split: sum.splits simp: nth_Cons split: nat.splits)
qed

lemma sequence_Inr_set:
  assumes "sequence rs = Inr xs" "x \<in> set xs"
  shows "Inr x \<in> set rs"
proof -
  from assms(2) obtain i where "i < length xs" "x = xs ! i" by (auto simp: in_set_conv_nth)
  with sequence_Inr_nth[OF assms(1)] show ?thesis by (metis nth_mem)
qed

text \<open>
  C10. \<^verbatim>\<open>toProduct\<close> terminates on every input: every input lies in the domain on which
  the recursion is well founded, because the recursive calls stand under \<^verbatim>\<open>level < 1\<close>
  and pass level 1. A call at level 1 or above returns no variant, a call below level 1
  returns one variant for each item of the product, and every variant in the returned
  \<^verbatim>\<open>isVariantOf.hasVariant\<close> has itself an empty \<^verbatim>\<open>hasVariant\<close>.
\<close>

theorem toProduct_depth_one:
  "toProduct_dom (pf, p, sk, level, options) \<and>
   (\<forall>r. toProduct pf p sk level options = Inr r \<longrightarrow>
      (1 \<le> level \<longrightarrow> hasVariant (isVariantOf r) = []) \<and>
      (level < 1 \<longrightarrow> length (hasVariant (isVariantOf r)) = length (items p)) \<and>
      (\<forall>v \<in> set (hasVariant (isVariantOf r)). hasVariant (isVariantOf v) = []))"
proof (intro conjI allI impI)
  show "toProduct_dom (pf, p, sk, level, options)"
    by (rule toProduct.domintros) (rule toProduct_dom_level_one)
next
  fix r assume "toProduct pf p sk level options = Inr r" "1 \<le> level"
  then show "hasVariant (isVariantOf r) = []" using toProduct_level_ge_1 by blast
next
  fix r assume r: "toProduct pf p sk level options = Inr r" and l: "level < 1"
  from r obtain vs where "hasVariant (isVariantOf r) = vs"
    "sequence (map (\<lambda>sk'. toProduct pf p sk' 1 options) (items p)) = Inr vs"
    by (elim toProduct_Inr) (use l in auto)
  then show "length (hasVariant (isVariantOf r)) = length (items p)"
    using sequence_Inr_nth by fastforce
next
  fix r assume r: "toProduct pf p sk level options = Inr r"
  show "\<forall>v \<in> set (hasVariant (isVariantOf r)). hasVariant (isVariantOf v) = []"
  proof
    fix v assume v: "v \<in> set (hasVariant (isVariantOf r))"
    from r obtain vs where vs: "hasVariant (isVariantOf r) = vs"
      "(if level < 1 then sequence (map (\<lambda>sk'. toProduct pf p sk' 1 options) (items p)) else Inr []) = Inr vs"
      by (elim toProduct_Inr) auto
    with v have "level < 1" by (auto split: if_splits)
    with vs v have "Inr v \<in> set (map (\<lambda>sk'. toProduct pf p sk' 1 options) (items p))"
      using sequence_Inr_set by fastforce
    then obtain sk' where "toProduct pf p sk' 1 options = Inr v" by auto
    then show "hasVariant (isVariantOf v) = []" using toProduct_level_ge_1 by force
  qed
qed

theorem toProduct_depth_one_witness:
  "toProduct_dom (plainPlatform, product3, sku3, 0, exampleOptions) \<and>
   (\<exists>r. toProduct plainPlatform product3 sku3 0 exampleOptions = Inr r \<and>
        map (\<lambda>v. hasVariant (isVariantOf v)) (hasVariant (isVariantOf r)) = [[]])"
proof -
  have "\<not> isl (toProduct plainPlatform product3 sku3 0 exampleOptions)"
    by code_simp
  then obtain r where r: "toProduct plainPlatform product3 sku3 0 exampleOptions = Inr r"
    by (cases "toProduct plainPlatform product3 sku3 0 exampleOptions") auto
  have i: "length (items product3) = 1" by (simp add: product3_def exampleProduct_def)
  from toProduct_depth_one[of plainPlatform product3 sku3 0 exampleOptions] r i
  have d: "toProduct_dom (plainPlatform, product3, sku3, 0, exampleOptions)"
    and "length (hasVariant (isVariantOf r)) = 1"
    and "\<forall>v \<in> set (hasVariant (isVariantOf r)). hasVariant (isVariantOf v) = []"
    by auto
  then have "map (\<lambda>v. hasVariant (isVariantOf v)) (hasVariant (isVariantOf r)) = [[]]"
    by (cases "hasVariant (isVariantOf r)") auto
  with r d show ?thesis by (intro conjI exI[of _ r]) simp_all
qed

subsection \<open>Legacy and modern shapes\<close>



subsection \<open>The URLs of a product\<close>

lemma getProductURL_Inr:
  assumes "getProductURL pf u p (Some i) = Inr pu"
  shows "\<exists>cu. newURL pf (''/'' @ linkText p @ ''/p'') (origin u) = Some cu \<and>
               pu = (if i = [] then cu else searchParams_set pf cu ''skuId'' i)"
  using assms
  by (auto simp: getProductURL_def getCanonicalURL_def new_URL_def
           split: sum.splits option.splits if_splits)

lemma toBreadcrumbList_Inr:
  assumes "toBreadcrumbList pf p options = (p', Inr bl)"
  shows "\<exists>cu elems. newURL pf (''/'' @ linkText p @ ''/p'') (origin (url options)) = Some cu \<and>
           itemListElement bl = elems @ [\<lparr> li_name = Some (productName p), item = href cu,
                                            position = length (categories p) + 1 \<rparr>]"
  using assms
  by (auto simp: toBreadcrumbList_def getCanonicalURL_def new_URL_def Let_def
           split: sum.splits option.splits)

text \<open>
  C8, as the code has it. For every product with link text \<open>l\<close> and every sku with a
  non-empty item id \<open>i\<close>, \<^verbatim>\<open>toProduct\<close> sets the \<^verbatim>\<open>url\<close> of the product and of its
  \<^verbatim>\<open>isVariantOf\<close> to the URL \<^verbatim>\<open>/l/p\<close> on the origin of the request URL with the search
  parameter \<^verbatim>\<open>skuId\<close> set to \<open>i\<close>; for the empty item id both are the URL \<^verbatim>\<open>/l/p\<close> with no
  parameter set. The last item of the breadcrumb is the URL \<^verbatim>\<open>/l/p\<close> on the same origin
  with no parameter set.
\<close>

theorem product_urls:
  "(toProduct pf p sk level options = Inr r \<longrightarrow>
      (\<exists>cu. newURL pf (''/'' @ linkText p @ ''/p'') (origin (url options)) = Some cu \<and>
            p_url r = href (if itemId sk = [] then cu
                            else searchParams_set pf cu ''skuId'' (itemId sk)) \<and>
            pg_url (isVariantOf r) = p_url r)) \<and>
   (toBreadcrumbList pf p options = (p', Inr bl) \<longrightarrow>
      (\<exists>cu. newURL pf (''/'' @ linkText p @ ''/p'') (origin (url options)) = Some cu \<and>
            itemListElement bl \<noteq> [] \<and>
            item (last (itemListElement bl)) = href cu \<and>
            li_name (last (itemListElement bl)) = Some (productName p)))"
proof (intro conjI impI)
  assume "toProduct pf p sk level options = Inr r"
  then obtain pu where "getProductURL pf (url options) p (Some (itemId sk)) = Inr pu"
    "p_url r = href pu" "pg_url (isVariantOf r) = href pu"
    by (elim toProduct_Inr) simp
  with getProductURL_Inr[of pf "url options" p "itemId sk" pu]
  show "\<exists>cu. newURL pf (''/'' @ linkText p @ ''/p'') (origin (url options)) = Some cu \<and>
            p_url r = href (if itemId sk = [] then cu
                            else searchParams_set pf cu ''skuId'' (itemId sk)) \<and>
            pg_url (isVariantOf r) = p_url r"
    by auto
next
  assume "toBreadcrumbList pf p options = (p', Inr bl)"
  from toBreadcrumbList_Inr[OF this]
  show "\<exists>cu. newURL pf (''/'' @ linkText p @ ''/p'') (origin (url options)) = Some cu \<and>
            itemListElement bl \<noteq> [] \<and>
            item (last (itemListElement bl)) = href cu \<and>
            li_name (last (itemListElement bl)) = Some (productName p)"
    by auto
qed

theorem product_urls_witness:
  "\<exists>r bl. toProduct plainPlatform product3 sku3 0 exampleOptions = Inr r \<and>
     snd (toBreadcrumbList plainPlatform product3 exampleOptions) = Inr bl \<and>
     p_url r = ''https://x.com/shirt/p?skuId=7'' \<and>
     pg_url (isVariantOf r) = ''https://x.com/shirt/p?skuId=7'' \<and>
     item (last (itemListElement bl)) = ''https://x.com/shirt/p''"
proof -
  have "\<not> isl (toProduct plainPlatform product3 sku3 0 exampleOptions)"
    by code_simp
  then obtain r where r: "toProduct plainPlatform product3 sku3 0 exampleOptions = Inr r"
    by (cases "toProduct plainPlatform product3 sku3 0 exampleOptions") auto
  have "\<not> isl (snd (toBreadcrumbList plainPlatform product3 exampleOptions))"
    by code_simp
  then obtain p' bl where bl: "toBreadcrumbList plainPlatform product3 exampleOptions = (p', Inr bl)"
    by (cases "toBreadcrumbList plainPlatform product3 exampleOptions";
        cases "snd (toBreadcrumbList plainPlatform product3 exampleOptions)") auto
  have cu: "newURL plainPlatform (''/'' @ linkText product3 @ ''/p'') (origin (url exampleOptions))
        = Some \<lparr> href = ''https://x.com/shirt/p'', origin = ''https://x.com'',
                 pathname = ''/shirt/p'', search = [] \<rparr>"
    by code_simp
  have i: "itemId sku3 = ''7''" by (simp add: sku3_def exampleSku_def)
  have h: "href (searchParams_set plainPlatform \<lparr> href = ''https://x.com/shirt/p'', origin = ''https://x.com'',
                 pathname = ''/shirt/p'', search = [] \<rparr> ''skuId'' ''7'') = ''https://x.com/shirt/p?skuId=7''"
    by code_simp
  from product_urls[of plainPlatform product3 sku3 0 exampleOptions r p' bl] r bl cu i h
  have "p_url r = ''https://x.com/shirt/p?skuId=7''"
       "pg_url (isVariantOf r) = ''https://x.com/shirt/p?skuId=7''"
       "item (last (itemListElement bl)) = ''https://x.com/shirt/p''"
    by auto
  with r bl show ?thesis by (intro exI[of _ r] exI[of _ bl]) simp
qed

text \<open>
  For the empty item id the URL of the product has no \<^verbatim>\<open>skuId\<close> parameter, while the URL
  with the parameter set to the id ends in \<^verbatim>\<open>?skuId=\<close>.
\<close>

theorem product_urls_counterexample:
  "itemId skuNoId = [] \<and>
   \<not> isl (toProduct plainPlatform (exampleProduct [''/a/''] [skuNoId]) skuNoId 0 exampleOptions) \<and>
   p_url (projr (toProduct plainPlatform (exampleProduct [''/a/''] [skuNoId]) skuNoId 0 exampleOptions))
     = ''https://x.com/shirt/p'' \<and>
   map_option (\<lambda>cu. href (searchParams_set plainPlatform cu ''skuId'' (itemId skuNoId)))
       (newURL plainPlatform ''/shirt/p'' ''https://x.com'')
     = Some ''https://x.com/shirt/p?skuId=''"
  by code_simp

subsection \<open>When the mapping functions return\<close>

lemma sequence_returns_iff:
  "(\<exists>xs. sequence rs = Inr xs) \<longleftrightarrow> (\<forall>r \<in> set rs. \<exists>x. r = Inr x)"
  by (induction rs) (auto split: sum.splits)

lemma sequence_error:
  "sequence rs = Inl e \<Longrightarrow> Inl e \<in> set rs"
  by (induction rs) (auto split: sum.splits)

lemma flatMapE_returns_iff:
  "(\<exists>ys. flatMapE f xs = Inr ys) \<longleftrightarrow> (\<forall>x \<in> set xs. \<exists>y. f x = Inr y)"
proof -
  have "(\<exists>ys. flatMapE f xs = Inr ys) \<longleftrightarrow> (\<exists>yss. sequence (map f xs) = Inr yss)"
    by (auto simp: flatMapE_def split: sum.splits)
  then show ?thesis by (simp add: sequence_returns_iff)
qed

lemma flatMapE_error: "flatMapE f xs = Inl e \<Longrightarrow> \<exists>x \<in> set xs. f x = Inl e"
  using sequence_error[of "map f xs" e] by (auto simp: flatMapE_def split: sum.splits)

lemma specificationValues_returns_iff:
  "(\<exists>y. specificationValues ref n vs = Inr y) \<longleftrightarrow> vs \<noteq> None"
  by (auto simp: specificationValues_def split: option.splits)

lemma specificationValues_error: "specificationValues ref n vs = Inl e \<Longrightarrow> e = TypeError"
  by (auto simp: specificationValues_def split: option.splits)

lemma group_properties_return_iff:
  "(\<exists>ga. (if isLegacyProduct p then legacyToProductGroupAdditionalProperties p
           else Inr (toProductGroupAdditionalProperties p)) = Inr ga) \<longleftrightarrow> specificationsDefined p"
  by (auto simp: specificationsDefined_def legacyToProductGroupAdditionalProperties_def
        flatMapE_returns_iff specificationValues_returns_iff split: option.splits)

lemma group_properties_error:
  "(if isLegacyProduct p then legacyToProductGroupAdditionalProperties p
    else Inr (toProductGroupAdditionalProperties p)) = Inl e \<Longrightarrow> e = TypeError"
  by (auto simp: legacyToProductGroupAdditionalProperties_def
        split: option.splits if_splits dest!: flatMapE_error specificationValues_error)

lemma sku_properties_return_iff:
  "(\<exists>sa. (if isLegacySku sk then toAdditionalPropertiesLegacy sk
           else toAdditionalProperties sk) = Inr sa) \<longleftrightarrow> variationsDefined sk"
  by (auto simp: variationsDefined_def isLegacySku_def toAdditionalPropertiesLegacy_def
        toAdditionalProperties_def flatMapE_returns_iff specificationValues_returns_iff
        split: option.splits Variations.splits list.splits)

lemma sku_properties_error:
  "(if isLegacySku sk then toAdditionalPropertiesLegacy sk
    else toAdditionalProperties sk) = Inl e \<Longrightarrow> e = TypeError"
  by (auto simp: toAdditionalPropertiesLegacy_def toAdditionalProperties_def
        split: option.splits if_splits Variations.splits
        dest!: flatMapE_error specificationValues_error)

lemma getHighPriceIndex_returns: "\<exists>k. getHighPriceIndex os = Inr k"
  using getHighPriceIndex_spec[of os] getHighPriceIndex_empty by (cases "os = []") auto

lemma at_index_0_None_iff: "at_index xs 0 = None \<longleftrightarrow> xs = []"
  by (simp add: at_index_def)

lemma splitCategory_returns_iff: "(\<exists>c. splitCategory (at_index xs 0) = Inr c) \<longleftrightarrow> xs \<noteq> []"
  by (cases "at_index xs 0") (auto simp: splitCategory_def at_index_def split: if_splits)

lemma splitCategory_error: "splitCategory x = Inl e \<Longrightarrow> e = TypeError"
  by (auto simp: splitCategory_def split: option.splits)

lemma category_properties_return_iff:
  "(\<exists>cap. toAdditionalPropertyCategories p = Inr cap) \<longleftrightarrow> categories p \<noteq> [] \<and> categoriesIds p \<noteq> []"
  using splitCategory_returns_iff[of "categories p"] splitCategory_returns_iff[of "categoriesIds p"]
  by (auto simp: toAdditionalPropertyCategories_def split: sum.splits)

lemma category_properties_error: "toAdditionalPropertyCategories p = Inl e \<Longrightarrow> e = TypeError"
  by (auto simp: toAdditionalPropertyCategories_def split: sum.splits dest: splitCategory_error)

lemma new_URL_error: "new_URL pf rel base = Inl e \<Longrightarrow> e = TypeError"
  by (auto simp: new_URL_def split: option.splits)

lemma getProductURL_error: "getProductURL pf u p i = Inl e \<Longrightarrow> e = TypeError"
  by (auto simp: getProductURL_def getCanonicalURL_def
        split: sum.splits option.splits if_splits dest: new_URL_error)

lemma getProductURL_returns_iff:
  "(\<exists>pu. getProductURL pf u p i = Inr pu) \<longleftrightarrow>
     newURL pf (''/'' @ linkText p @ ''/p'') (origin u) \<noteq> None"
  by (auto simp: getProductURL_def getCanonicalURL_def new_URL_def split: option.splits)

lemma toProduct_returns:
  "(\<exists>r. toProduct pf p sk level options = Inr r) \<longleftrightarrow>
     (\<exists>ga. (if isLegacyProduct p then legacyToProductGroupAdditionalProperties p
            else Inr (toProductGroupAdditionalProperties p)) = Inr ga) \<and>
     (\<exists>sa. (if isLegacySku sk then toAdditionalPropertiesLegacy sk
            else toAdditionalProperties sk) = Inr sa) \<and>
     (\<exists>vs. (if level < 1 then sequence (map (\<lambda>sk'. toProduct pf p sk' 1 options) (items p))
            else Inr []) = Inr vs) \<and>
     (\<exists>c. splitCategory (at_index (categories p) 0) = Inr c) \<and>
     (\<exists>cap. toAdditionalPropertyCategories p = Inr cap) \<and>
     (\<exists>pu. getProductURL pf (url options) p (Some (itemId sk)) = Inr pu)"
  (is "?L \<longleftrightarrow> ?R")
proof
  assume ?L
  then obtain r where "toProduct pf p sk level options = Inr r" ..
  then show ?R by (rule toProduct_Inr) blast
next
  assume ?R
  then obtain ga sa vs c cap pu where
    "(if isLegacyProduct p then legacyToProductGroupAdditionalProperties p
            else Inr (toProductGroupAdditionalProperties p)) = Inr ga"
    "(if isLegacySku sk then toAdditionalPropertiesLegacy sk
            else toAdditionalProperties sk) = Inr sa"
    "(if level < 1 then sequence (map (\<lambda>sk'. toProduct pf p sk' 1 options) (items p))
            else Inr []) = Inr vs"
    "splitCategory (at_index (categories p) 0) = Inr c"
    "toAdditionalPropertyCategories p = Inr cap"
    "getProductURL pf (url options) p (Some (itemId sk)) = Inr pu" by blast
  moreover obtain k where
    "getHighPriceIndex (js_sort bestOfferFirst (map toOffer (sellers sk))) = Inr k"
    using getHighPriceIndex_returns by blast
  ultimately show ?L
    by (subst toProduct.simps) (simp add: Let_def)
qed

lemma toProduct_returns_iff:
  "(\<exists>r. toProduct pf p sk level options = Inr r) \<longleftrightarrow>
     categories p \<noteq> [] \<and> categoriesIds p \<noteq> [] \<and> specificationsDefined p \<and>
     variationsDefined sk \<and> (level < 1 \<longrightarrow> (\<forall>sk' \<in> set (items p). variationsDefined sk')) \<and>
     newURL pf (''/'' @ linkText p @ ''/p'') (origin (url options)) \<noteq> None"
proof -
  have one: "(\<exists>r. toProduct pf p sk' 1 options = Inr r) \<longleftrightarrow>
     categories p \<noteq> [] \<and> categoriesIds p \<noteq> [] \<and> specificationsDefined p \<and> variationsDefined sk' \<and>
     newURL pf (''/'' @ linkText p @ ''/p'') (origin (url options)) \<noteq> None"
    for sk'
    unfolding toProduct_returns[of pf p sk' 1 options]
      group_properties_return_iff sku_properties_return_iff category_properties_return_iff
      splitCategory_returns_iff getProductURL_returns_iff
    by auto
  have variants: "(\<exists>vs. (if level < 1 then sequence (map (\<lambda>sk'. toProduct pf p sk' 1 options) (items p))
            else Inr []) = Inr vs) \<longleftrightarrow>
      (level < 1 \<longrightarrow> (\<forall>sk' \<in> set (items p). \<exists>r. toProduct pf p sk' 1 options = Inr r))"
    by (auto simp: sequence_returns_iff)
  show ?thesis
    unfolding toProduct_returns[of pf p sk level options] variants one
      group_properties_return_iff sku_properties_return_iff category_properties_return_iff
      splitCategory_returns_iff getProductURL_returns_iff
    by auto
qed

lemma legacy_group_properties_error:
  "legacyToProductGroupAdditionalProperties p = Inl e \<Longrightarrow> e = TypeError"
  using group_properties_error[of p e] by (cases "isLegacyProduct p") (auto
      simp: legacyToProductGroupAdditionalProperties_def
      split: option.splits dest!: flatMapE_error specificationValues_error)

lemma legacy_sku_properties_error: "toAdditionalPropertiesLegacy sk = Inl e \<Longrightarrow> e = TypeError"
  by (auto simp: toAdditionalPropertiesLegacy_def
        split: option.splits if_splits Variations.splits
        dest!: flatMapE_error specificationValues_error)

lemma modern_sku_properties_error: "toAdditionalProperties sk = Inl e \<Longrightarrow> e = TypeError"
  by (auto simp: toAdditionalProperties_def split: option.splits if_splits Variations.splits)

lemma toProduct_error_level_one:
  assumes "toProduct pf p sk 1 options = Inl e"
  shows "e = TypeError"
proof -
  obtain k where "getHighPriceIndex (js_sort bestOfferFirst (map toOffer (sellers sk))) = Inr k"
    using getHighPriceIndex_returns by blast
  with assms show ?thesis
    by (subst (asm) toProduct.simps)
       (auto simp: Let_def split: sum.splits if_splits
             dest: legacy_group_properties_error legacy_sku_properties_error
                   modern_sku_properties_error splitCategory_error
                   category_properties_error getProductURL_error)
qed

lemma toProduct_error:
  assumes "toProduct pf p sk level options = Inl e"
  shows "e = TypeError"
proof -
  obtain k where "getHighPriceIndex (js_sort bestOfferFirst (map toOffer (sellers sk))) = Inr k"
    using getHighPriceIndex_returns by blast
  moreover have "e = TypeError"
    if "sequence (map (\<lambda>sk'. toProduct pf p sk' 1 options) (items p)) = Inl e"
    using sequence_error[OF that] toProduct_error_level_one by auto
  ultimately show ?thesis
    using assms
    by (subst (asm) toProduct.simps)
       (auto simp: Let_def split: sum.splits if_splits
             dest: legacy_group_properties_error legacy_sku_properties_error
                   modern_sku_properties_error splitCategory_error
                   category_properties_error getProductURL_error)
qed

lemma toBreadcrumbItem_error: "toBreadcrumbItem pf u ic = Inl e \<Longrightarrow> e = TypeError"
  by (auto simp: toBreadcrumbItem_def Let_def split: prod.splits sum.splits dest: new_URL_error)

lemma toBreadcrumbList_fst:
  "fst (toBreadcrumbList pf p options) = p\<lparr>categories := rev (categories p)\<rparr>"
  by (simp add: toBreadcrumbList_def Let_def)

lemma toBreadcrumbList_error:
  assumes "snd (toBreadcrumbList pf p options) = Inl e"
  shows "e = TypeError"
proof -
  have "e = TypeError"
    if "sequence (map (toBreadcrumbItem pf (url options)) (enumerate 0 (rev (categories p)))) = Inl e"
    using sequence_error[OF that] toBreadcrumbItem_error by auto
  with assms show ?thesis
    by (auto simp: toBreadcrumbList_def Let_def getCanonicalURL_def
             split: sum.splits dest: new_URL_error)
qed

lemma toBreadcrumbItem_returns_iff:
  "(\<exists>li. toBreadcrumbItem pf u ic = Inr li) \<longleftrightarrow>
     newURL pf (breadcrumbReference pf (snd ic)) (origin u) \<noteq> None"
  by (cases ic)
     (auto simp: toBreadcrumbItem_def breadcrumbReference_def Let_def new_URL_def
           split: option.splits)

lemma snd_set_enumerate: "snd ` set (enumerate n xs) = set xs"
  by (metis list.set_map map_snd_enumerate)

lemma toBreadcrumbList_returns_iff:
  "(\<exists>bl. snd (toBreadcrumbList pf p options) = Inr bl) \<longleftrightarrow> urlsAccepted pf p options"
proof -
  let ?items = "map (toBreadcrumbItem pf (url options)) (enumerate 0 (rev (categories p)))"
  have items: "(\<exists>elems. sequence ?items = Inr elems) \<longleftrightarrow>
      (\<forall>c \<in> set (categories p). newURL pf (breadcrumbReference pf c) (origin (url options)) \<noteq> None)"
  proof -
    have "(\<exists>elems. sequence ?items = Inr elems) \<longleftrightarrow>
        (\<forall>ic \<in> set (enumerate 0 (rev (categories p))).
           newURL pf (breadcrumbReference pf (snd ic)) (origin (url options)) \<noteq> None)"
      by (simp add: sequence_returns_iff toBreadcrumbItem_returns_iff)
    also have "\<dots> \<longleftrightarrow>
        (\<forall>c \<in> snd ` set (enumerate 0 (rev (categories p))).
           newURL pf (breadcrumbReference pf c) (origin (url options)) \<noteq> None)"
      by blast
    finally show ?thesis by (simp add: snd_set_enumerate)
  qed
  have "(\<exists>bl. snd (toBreadcrumbList pf p options) = Inr bl) \<longleftrightarrow>
      (\<exists>elems. sequence ?items = Inr elems) \<and>
      newURL pf (''/'' @ linkText p @ ''/p'') (origin (url options)) \<noteq> None"
    by (auto simp: toBreadcrumbList_def Let_def getCanonicalURL_def new_URL_def
             split: sum.splits option.splits)
  then show ?thesis by (simp add: items urlsAccepted_def conj_commute)
qed

lemma productProperty_reversed:
  "productProperty (p\<lparr>categories := rev (categories p)\<rparr>) n = None \<longleftrightarrow> productProperty p n = None"
  by (simp add: productProperty_def)

lemma payloadDefined_reversed:
  "payloadDefined (p\<lparr>categories := rev (categories p)\<rparr>) = payloadDefined p"
  by (auto simp: payloadDefined_def specificationsDefined_def isLegacyProduct_def
        productProperty_reversed split: option.splits)

lemma find_requested:
  "find (\<lambda>it. Some (itemId it) = requestedSkuId p s) (items p) = None \<longleftrightarrow> \<not> variantPresent p s"
  by (auto simp: find_None_iff variantPresent_def)

lemma toProductPage_absent:
  assumes "\<not> variantPresent p s"
  shows "toProductPage pf p s options = (p, Inl (MissingSku (requestedSkuId p s) (productName p)))"
  using assms find_requested[of p s]
  by (simp add: toProductPage_def requestedSkuId_def)

lemma toProductPage_present:
  assumes "variantPresent p s"
  obtains sk where "sk \<in> set (items p)"
    "toProductPage pf p s options =
       (p\<lparr>categories := rev (categories p)\<rparr>,
        case snd (toBreadcrumbList pf p options) of
          Inl e \<Rightarrow> Inl e
        | Inr bl \<Rightarrow>
            (case toProduct pf (p\<lparr>categories := rev (categories p)\<rparr>) sk 0 options of
               Inl e \<Rightarrow> Inl e
             | Inr pr \<Rightarrow> Inr \<lparr> breadcrumbList = bl, product = pr \<rparr>))"
proof -
  from assms find_requested[of p s] obtain sk where
    sk: "find (\<lambda>it. Some (itemId it) = requestedSkuId p s) (items p) = Some sk" by auto
  then have "sk \<in> set (items p)" by (auto simp: find_Some_iff)
  moreover have "toProductPage pf p s options =
       (p\<lparr>categories := rev (categories p)\<rparr>,
        case snd (toBreadcrumbList pf p options) of
          Inl e \<Rightarrow> Inl e
        | Inr bl \<Rightarrow>
            (case toProduct pf (p\<lparr>categories := rev (categories p)\<rparr>) sk 0 options of
               Inl e \<Rightarrow> Inl e
             | Inr pr \<Rightarrow> Inr \<lparr> breadcrumbList = bl, product = pr \<rparr>))"
    using sk toBreadcrumbList_fst[of pf p options]
    by (cases "toBreadcrumbList pf p options")
       (auto simp: toProductPage_def requestedSkuId_def split: sum.splits)
  ultimately show ?thesis using that by blast
qed

text \<open>
  C1, as the code has it. \<^verbatim>\<open>toProductPage\<close> throws its error \<^verbatim>\<open>Missing sku\<close> if and only
  if the requested variant is absent: the id \<open>s\<close> (or, when \<open>s\<close> is undefined, the id of
  the first item) is the id of no item of the product; the product is then left as it
  was. When the variant is present, every exception is a \<^verbatim>\<open>TypeError\<close>, and the call
  returns a page if and only if the product has a first category and a first category id,
  every legacy specification and every legacy variation names a property that holds an
  array, and the URL constructor accepts the references that the call builds.
\<close>

theorem toProductPage_failures:
  "((\<exists>i n. snd (toProductPage pf p s options) = Inl (MissingSku i n)) \<longleftrightarrow> \<not> variantPresent p s) \<and>
   (\<not> variantPresent p s \<longrightarrow>
      toProductPage pf p s options = (p, Inl (MissingSku (requestedSkuId p s) (productName p)))) \<and>
   (variantPresent p s \<longrightarrow> (\<forall>e. snd (toProductPage pf p s options) = Inl e \<longrightarrow> e = TypeError)) \<and>
   (variantPresent p s \<and> \<not> (payloadDefined p \<and> urlsAccepted pf p options) \<longrightarrow>
      snd (toProductPage pf p s options) = Inl TypeError) \<and>
   ((\<exists>page. snd (toProductPage pf p s options) = Inr page)
      \<longleftrightarrow> variantPresent p s \<and> payloadDefined p \<and> urlsAccepted pf p options)"
proof (cases "variantPresent p s")
  case False
  with toProductPage_absent[OF False, of pf options] show ?thesis by simp
next
  case True
  then obtain sk where sk: "sk \<in> set (items p)" and
    page: "toProductPage pf p s options =
       (p\<lparr>categories := rev (categories p)\<rparr>,
        case snd (toBreadcrumbList pf p options) of
          Inl e \<Rightarrow> Inl e
        | Inr bl \<Rightarrow>
            (case toProduct pf (p\<lparr>categories := rev (categories p)\<rparr>) sk 0 options of
               Inl e \<Rightarrow> Inl e
             | Inr pr \<Rightarrow> Inr \<lparr> breadcrumbList = bl, product = pr \<rparr>))"
    by (rule toProductPage_present)
  let ?p' = "p\<lparr>categories := rev (categories p)\<rparr>"
  have errors: "e = TypeError" if "snd (toProductPage pf p s options) = Inl e" for e
    using that toBreadcrumbList_error[of pf p options e] toProduct_error[of pf ?p' sk 0 options e]
    by (auto simp: page split: sum.splits)
  have "(\<exists>pg. snd (toProductPage pf p s options) = Inr pg) \<longleftrightarrow>
      (\<exists>bl. snd (toBreadcrumbList pf p options) = Inr bl) \<and>
      (\<exists>pr. toProduct pf ?p' sk 0 options = Inr pr)"
    by (auto simp: page split: sum.splits)
  also have "\<dots> \<longleftrightarrow> urlsAccepted pf p options \<and> payloadDefined ?p'"
    unfolding toBreadcrumbList_returns_iff toProduct_returns_iff
    using sk by (auto simp: payloadDefined_def urlsAccepted_def)
  finally have returns: "(\<exists>pg. snd (toProductPage pf p s options) = Inr pg) \<longleftrightarrow>
      payloadDefined p \<and> urlsAccepted pf p options"
    by (auto simp: payloadDefined_reversed)
  have bad: "snd (toProductPage pf p s options) = Inl TypeError"
    if "\<not> (payloadDefined p \<and> urlsAccepted pf p options)"
  proof (cases "snd (toProductPage pf p s options)")
    case (Inl e)
    with errors show ?thesis by simp
  next
    case (Inr pg)
    with returns that show ?thesis by blast
  qed
  have missing: "snd (toProductPage pf p s options) \<noteq> Inl (MissingSku i n)" for i n
    using errors by blast
  from True missing errors bad returns show ?thesis by blast
qed

theorem toProductPage_failures_witness:
  "variantPresent product3 None \<and> payloadDefined product3 \<and>
   (\<exists>page. snd (toProductPage plainPlatform product3 None exampleOptions) = Inr page) \<and>
   (\<exists>page. snd (toProductPage strictPlatform product3 None exampleOptions) = Inr page) \<and>
   payloadDefined productSpecCategories \<and>
   (\<exists>page. snd (toProductPage plainPlatform productSpecCategories None exampleOptions) = Inr page) \<and>
   \<not> payloadDefined productSpecMissing \<and>
   snd (toProductPage plainPlatform productSpecMissing None exampleOptions) = Inl TypeError \<and>
   variantPresent productNoCategories None \<and> \<not> payloadDefined productNoCategories \<and>
   snd (toProductPage plainPlatform productNoCategories None exampleOptions) = Inl TypeError \<and>
   \<not> variantPresent product3 (Some ''8'') \<and>
   snd (toProductPage plainPlatform product3 (Some ''8'') exampleOptions)
     = Inl (MissingSku (Some ''8'') ''Shirt'')"
proof -
  have a: "variantPresent product3 None" "payloadDefined product3"
    "urlsAccepted plainPlatform product3 exampleOptions"
    "urlsAccepted strictPlatform product3 exampleOptions"
    by code_simp+
  have b: "variantPresent productNoCategories None" "\<not> payloadDefined productNoCategories"
    by code_simp+
  have c: "\<not> variantPresent product3 (Some ''8'')" by code_simp
  have d: "requestedSkuId product3 (Some ''8'') = Some ''8''" "productName product3 = ''Shirt''"
    by code_simp+
  have e: "variantPresent productSpecCategories None" "payloadDefined productSpecCategories"
    "urlsAccepted plainPlatform productSpecCategories exampleOptions"
    by code_simp+
  have f: "variantPresent productSpecMissing None" "\<not> payloadDefined productSpecMissing"
    by code_simp+
  from toProductPage_failures[of plainPlatform product3 None exampleOptions] a
  have 1: "\<exists>page. snd (toProductPage plainPlatform product3 None exampleOptions) = Inr page"
    by blast
  from toProductPage_failures[of strictPlatform product3 None exampleOptions] a
  have 2: "\<exists>page. snd (toProductPage strictPlatform product3 None exampleOptions) = Inr page"
    by blast
  from toProductPage_failures[of plainPlatform productSpecCategories None exampleOptions] e
  have 3: "\<exists>page. snd (toProductPage plainPlatform productSpecCategories None exampleOptions) = Inr page"
    by blast
  from toProductPage_failures[of plainPlatform productSpecMissing None exampleOptions] f
  have 4: "snd (toProductPage plainPlatform productSpecMissing None exampleOptions) = Inl TypeError"
    by blast
  from toProductPage_failures[of plainPlatform productNoCategories None exampleOptions] b
  have 5: "snd (toProductPage plainPlatform productNoCategories None exampleOptions) = Inl TypeError"
    by blast
  from toProductPage_failures[of plainPlatform product3 "Some ''8''" exampleOptions] c d
  have 6: "snd (toProductPage plainPlatform product3 (Some ''8'') exampleOptions)
     = Inl (MissingSku (Some ''8'') ''Shirt'')"
    by simp
  from a b c e f 1 2 3 4 5 6 show ?thesis by blast
qed

text \<open>
  A product without categories whose first item is the requested variant: the variant is
  present, and the call throws.
\<close>

theorem toProductPage_failures_counterexample:
  "find (\<lambda>it. itemId it = ''7'') (items productNoCategories) = Some sku3 \<and>
   requestedSkuId productNoCategories None = Some ''7'' \<and>
   snd (toProductPage plainPlatform productNoCategories None exampleOptions) = Inl TypeError"
  by code_simp

subsection \<open>The product after the call\<close>

lemma toProductPage_fst:
  "fst (toProductPage pf p s options) =
     (if variantPresent p s then p\<lparr>categories := rev (categories p)\<rparr> else p)"
proof (cases "variantPresent p s")
  case True
  then show ?thesis by (rule toProductPage_present[of p s pf options]) (simp add: True)
next
  case False
  then show ?thesis by (simp add: toProductPage_absent)
qed

text \<open>
  C2 at a product with the categories \<^verbatim>\<open>/a/b/\<close> and \<^verbatim>\<open>/a/\<close>. The claim is that
  \<^verbatim>\<open>toProductPage\<close> leaves its inputs as they are and that two calls on equal inputs
  return equal results. The call leaves the categories of the product in reverse order;
  a second call on the same product returns the breadcrumb in the other order; and the
  category of the product on the page is the one of the reversed array, not the one
  \<^verbatim>\<open>toProduct\<close> returns for the product as it was.
\<close>

theorem toProductPage_reverses_categories:
  "categories product3 = [''/a/b/'', ''/a/''] \<and>
   categories (fst (toProductPage plainPlatform product3 None exampleOptions)) = [''/a/'', ''/a/b/''] \<and>
   map li_name (itemListElement (breadcrumbList (projr (snd
       (toProductPage plainPlatform product3 None exampleOptions)))))
     = [Some ''a'', Some ''b'', Some ''Shirt''] \<and>
   map li_name (itemListElement (breadcrumbList (projr (snd
       (toProductPage plainPlatform
          (fst (toProductPage plainPlatform product3 None exampleOptions)) None exampleOptions)))))
     = [Some ''b'', Some ''a'', Some ''Shirt''] \<and>
   category (projr (toProduct plainPlatform product3 sku3 0 exampleOptions)) = ''a>b'' \<and>
   category (product (projr (snd (toProductPage plainPlatform product3 None exampleOptions)))) = ''a''"
  by code_simp

subsection \<open>Legacy facets and their selection\<close>

lemma findIndex_takeWhile:
  "findIndex P xs = (if \<exists>x \<in> set xs. P x then int (length (takeWhile (\<lambda>x. \<not> P x) xs)) else - 1)"
  by (induction xs) (auto simp: Let_def)

lemma remove1_takeWhile:
  "a \<in> set xs \<Longrightarrow>
   remove1 a xs = takeWhile (\<lambda>x. x \<noteq> a) xs @ drop (Suc (length (takeWhile (\<lambda>x. x \<noteq> a) xs))) xs"
proof (induction xs)
  case Nil
  then show ?case by simp
next
  case (Cons x xs)
  show ?case
  proof (cases "x = a")
    case True
    then show ?thesis by simp
  next
    case False
    with Cons.prems have "a \<in> set xs" by simp
    from Cons.IH[OF this] False show ?thesis by simp
  qed
qed

lemma length_takeWhile_member:
  "a \<in> set xs \<Longrightarrow> length (takeWhile (\<lambda>x. x \<noteq> a) xs) < length xs"
  by (induction xs) auto

lemma splice_one:
  "n < length xs \<Longrightarrow> splice xs (int n) 1 = take n xs @ drop (Suc n) xs"
  by (simp add: splice_def Let_def min_def nat_add_distrib)

lemma splice_findIndex:
  "splice xs (findIndex (\<lambda>x. x = a) xs) (if findIndex (\<lambda>x. x = a) xs > - 1 then 1 else 0)
     = remove1 a xs"
proof (cases "a \<in> set xs")
  case True
  let ?n = "length (takeWhile (\<lambda>x. x \<noteq> a) xs)"
  have idx: "findIndex (\<lambda>x. x = a) xs = int ?n"
    using True by (simp add: findIndex_takeWhile)
  have lt: "?n < length xs"
    using True by (rule length_takeWhile_member)
  have tk: "take ?n xs = takeWhile (\<lambda>x. x \<noteq> a) xs"
    by (rule takeWhile_eq_take[symmetric])
  have "splice xs (findIndex (\<lambda>x. x = a) xs) (if findIndex (\<lambda>x. x = a) xs > - 1 then 1 else 0)
          = splice xs (int ?n) 1"
    by (simp add: idx)
  also have "\<dots> = take ?n xs @ drop (Suc ?n) xs"
    by (rule splice_one[OF lt])
  also have "\<dots> = takeWhile (\<lambda>x. x \<noteq> a) xs @ drop (Suc ?n) xs"
    by (simp only: tk)
  also have "\<dots> = remove1 a xs"
    by (rule remove1_takeWhile[OF True, symmetric])
  finally show ?thesis .
next
  case False
  then have "findIndex (\<lambda>x. x = a) xs = - 1" by (simp add: findIndex_takeWhile)
  with False show ?thesis by (simp add: splice_def Let_def remove1_idem max_def)
qed

lemma js_split_nonempty: "js_split c s \<noteq> []"
  by (induction s) (auto split: list.splits)

lemma length_remove1_pos:
  assumes "length xs \<noteq> 1" "xs \<noteq> []"
  shows "length (remove1 a xs) > 0"
proof -
  from assms have "length xs \<ge> 2" by (cases xs) (auto simp: Suc_le_eq)
  then show ?thesis using assms by (auto simp: length_remove1)
qed

lemma unselect_sole_segment:
  "length (js_split CHR '','' m) = 1 \<Longrightarrow> unselect pf facet u m = Inr (pathname u @ search u)"
  by (simp add: unselect_def Let_def)

lemma unselect_removes:
  assumes "length (js_split CHR '','' m) \<noteq> 1"
  shows "unselect pf facet u m =
     (case newURL pf (js_replace (''/'' @ Value facet) [] (pathname u)) (origin u) of
        None \<Rightarrow> Inl TypeError
      | Some nu \<Rightarrow>
          Inr (pathname (searchParams_set pf (set_search pf nu (search u)) ''map''
                           (js_join '','' (remove1 (Map facet) (js_split CHR '','' m))))
             @ search (searchParams_set pf (set_search pf nu (search u)) ''map''
                           (js_join '','' (remove1 (Map facet) (js_split CHR '','' m))))))"
proof -
  have "length (remove1 (Map facet) (js_split CHR '','' m)) > 0"
    using assms js_split_nonempty by (rule length_remove1_pos)
  then show ?thesis
    using assms unfolding unselect_def Let_def splice_findIndex
    by (simp add: new_URL_def split: option.splits del: js_split.simps)
qed

lemma legacyFacetValue_Inr:
  assumes "legacyFacetValue pf ms ps u m facet = Inr v"
  shows "fv_value v = Value facet \<and> fv_quantity v = Quantity facet \<and> fv_label v = Name facet \<and>
         selected v = (Map facet \<in> set ms \<and> Value facet \<in> set ps) \<and>
         (if selected v then unselect pf facet u m = Inr (fv_url v)
          else fv_url v = LinkEncoded facet)"
  using assms
  by (auto simp: legacyFacetValue_def Let_def has_def split: sum.splits if_splits)

text \<open>
  What \<^verbatim>\<open>legacyFacetToFilter\<close> returns. A value is selected if and only if the \<^verbatim>\<open>Map\<close> of
  its facet is one of the comma-separated segments of \<open>m\<close> and the \<^verbatim>\<open>Value\<close> of its facet
  is one of the first \<open>n + 1\<close> slash-separated segments of the pathname of \<open>u\<close>, where \<open>n\<close>
  is the size of the set of the segments of \<open>m\<close>. The url of a selected value is the
  result of \<^verbatim>\<open>unselect\<close>, the url of any other value is the \<^verbatim>\<open>LinkEncoded\<close> of its facet.
\<close>

lemma legacyFacetToFilter_values:
  assumes "legacyFacetToFilter pf nm facets u m = Inr flt"
  shows "length (ft_values flt) = length facets \<and>
      (\<forall>i < length facets.
         fv_value (ft_values flt ! i) = Value (facets ! i) \<and>
         (selected (ft_values flt ! i) \<longleftrightarrow>
            Map (facets ! i) \<in> set (js_split CHR '','' m) \<and>
            Value (facets ! i) \<in> set (take (card (set (js_split CHR '','' m)) + 1)
                                          (js_split CHR ''/'' (pathname u)))) \<and>
         (if selected (ft_values flt ! i)
          then unselect pf (facets ! i) u m = Inr (fv_url (ft_values flt ! i))
          else fv_url (ft_values flt ! i) = LinkEncoded (facets ! i)))"
proof -
  let ?ms = "js_Set (js_split CHR '','' m)"
  let ?ps = "js_Set (take (length ?ms + 1) (js_split CHR ''/'' (pathname u)))"
  have size: "length ?ms = card (set (js_split CHR '','' m))"
    by (simp add: js_Set_def length_remdups_card_conv)
  from assms
  have seq: "sequence (map (legacyFacetValue pf ?ms ?ps u m) facets) = Inr (ft_values flt)"
    by (auto simp: legacyFacetToFilter_def Let_def split: sum.splits)
  from sequence_Inr_nth[OF seq]
  have len: "length (ft_values flt) = length facets"
    and nth: "\<And>i. i < length facets \<Longrightarrow>
                legacyFacetValue pf ?ms ?ps u m (facets ! i) = Inr (ft_values flt ! i)"
    by simp_all
  have "fv_value (ft_values flt ! i) = Value (facets ! i) \<and>
         (selected (ft_values flt ! i) \<longleftrightarrow>
            Map (facets ! i) \<in> set (js_split CHR '','' m) \<and>
            Value (facets ! i) \<in> set (take (card (set (js_split CHR '','' m)) + 1)
                                          (js_split CHR ''/'' (pathname u)))) \<and>
         (if selected (ft_values flt ! i)
          then unselect pf (facets ! i) u m = Inr (fv_url (ft_values flt ! i))
          else fv_url (ft_values flt ! i) = LinkEncoded (facets ! i))"
    if "i < length facets" for i
    using legacyFacetValue_Inr[OF nth[OF that]] size by (simp add: js_Set_def)
  with len show ?thesis by blast
qed

text \<open>
  C5 at the URL \<^verbatim>\<open>/reddish/red?map=c,color\<close> with the map \<^verbatim>\<open>c,color\<close> and the facet of map
  \<^verbatim>\<open>color\<close> and value \<^verbatim>\<open>red\<close>. The claim is that a value is selected if and only if the
  map of its facet is a segment of the map string and its value is one of the first path
  segments, that the url of a selected value has the facet removed from the path and
  from the map, and that the url of any other value is the \<^verbatim>\<open>LinkEncoded\<close> of its facet.
  The value is selected, as the claim says. Its url is \<^verbatim>\<open>/dish/red?map=c\<close>: \<^verbatim>\<open>unselect\<close>
  has removed the first \<^verbatim>\<open>/red\<close> of the pathname, which is the head of the segment
  \<^verbatim>\<open>reddish\<close>, and the facet \<^verbatim>\<open>red\<close> is still a segment of the path.
\<close>

theorem legacyFacetToFilter_unselect_keeps_facet:
  "\<not> isl (legacyFacetToFilter plainPlatform ''Color'' [redFacet] reddishUrl ''c,color'') \<and>
   Map redFacet = ''color'' \<and> Value redFacet = ''red'' \<and>
   js_split CHR '','' ''c,color'' = [''c'', ''color''] \<and>
   js_split CHR ''/'' (pathname reddishUrl) = [[], ''reddish'', ''red''] \<and>
   map selected (ft_values (projr
       (legacyFacetToFilter plainPlatform ''Color'' [redFacet] reddishUrl ''c,color''))) = [True] \<and>
   map fv_url (ft_values (projr
       (legacyFacetToFilter plainPlatform ''Color'' [redFacet] reddishUrl ''c,color'')))
     = [''/dish/red?map=c''] \<and>
   js_replace (''/'' @ Value redFacet) [] (pathname reddishUrl) = ''dish/red'' \<and>
   js_split CHR ''/'' ''/dish/red'' = [[], ''dish'', ''red'']"
  by code_simp

end
